theory Spec2Isabelle
  imports Main
begin

section \<open>JavaScript values used by \<^verbatim>\<open>server.js\<close>\<close>

text \<open>
  A field of a request body, a request header and a bound SQL parameter is either absent
  (\<^verbatim>\<open>undefined\<close>, here \<open>None\<close>) or a string (\<open>Some s\<close>). Fields of another JSON
  type (numbers, booleans, \<^verbatim>\<open>null\<close>, arrays, objects) are outside this model.
  \<^verbatim>\<open>!v\<close> on such a value is \<open>\<not> truthy v\<close>: \<^verbatim>\<open>undefined\<close> and the empty string are
  falsy, every other string is truthy.
\<close>

definition truthy :: "string option \<Rightarrow> bool" where
  "truthy v = (case v of None \<Rightarrow> False | Some s \<Rightarrow> s \<noteq> [])"

text \<open>\<^verbatim>\<open>v || d\<close> for a string default \<open>d\<close>.\<close>

definition or_else :: "string option \<Rightarrow> string \<Rightarrow> string" where
  "or_else v d = (case v of None \<Rightarrow> d | Some s \<Rightarrow> if s = [] then d else s)"

text \<open>
  \<^verbatim>\<open>s.split(c)\<close> for a one-character separator: the pieces between the separators, never
  an empty array (\<^verbatim>\<open>''.split(' ')\<close> is \<^verbatim>\<open>['']\<close>, \<^verbatim>\<open>'a '.split(' ')\<close> is \<^verbatim>\<open>['a', '']\<close>).
\<close>

fun js_split :: "char \<Rightarrow> string \<Rightarrow> string list" where
  "js_split c [] = [[]]"
| "js_split c (x # xs) =
     (if x = c then [] # js_split c xs
      else (let r = js_split c xs in (x # hd r) # tl r))"

text \<open>\<^verbatim>\<open>xs[i]\<close>: \<^verbatim>\<open>undefined\<close> out of range.\<close>

definition js_index :: "'a list \<Rightarrow> nat \<Rightarrow> 'a option" where
  "js_index xs i = (if i < length xs then Some (xs ! i) else None)"

section \<open>Tokens\<close>

text \<open>
  \<^verbatim>\<open>jwt.sign\<close> is given the payload \<^verbatim>\<open>{ id, email }\<close>; \<^verbatim>\<open>jwt.verify\<close> yields the decoded
  payload, which also carries the issuance and expiry times in seconds.
\<close>

record jwt_payload =
  jwt_id :: int
  jwt_email :: string

record jwt_claims = jwt_payload +
  jwt_iat :: nat
  jwt_exp :: nat

datatype jwt_error = JsonWebTokenError | TokenExpiredError

definition JWT_SECRET :: string where
  "JWT_SECRET = ''your_super_secret_key_change_this''"

text \<open>
  The two entry points of the token library are parameters of the routes that call them:
  \<open>sign payload secret expiresIn\<close> with the lifetime in seconds, and
  \<open>verify token secret\<close>, whose error is the \<^verbatim>\<open>err\<close> of the callback.
\<close>

type_synonym sign_fn = "jwt_payload \<Rightarrow> string \<Rightarrow> nat \<Rightarrow> string"
type_synonym verify_fn = "string \<Rightarrow> string \<Rightarrow> jwt_error + jwt_claims"

section \<open>Responses\<close>

datatype json_body =
    StatusText
  | NoBody
  | Message string
  | UserCreated string int
  | AccessToken string
  | PageRows "(int \<times> string \<times> string option) list"
  | PageCreated int string "string option" int

record response =
  status :: nat
  body :: json_body

text \<open>\<^verbatim>\<open>res.sendStatus(c)\<close>: the status with its reason phrase as the body.\<close>

definition sendStatus :: "nat \<Rightarrow> response" where
  "sendStatus c = \<lparr>status = c, body = StatusText\<rparr>"

text \<open>\<^verbatim>\<open>res.status(c).json(b)\<close>; \<^verbatim>\<open>res.json(b)\<close> is \<open>json 200 b\<close>.\<close>

definition json :: "nat \<Rightarrow> json_body \<Rightarrow> response" where
  "json c b = \<lparr>status = c, body = b\<rparr>"

section \<open>Authentication middleware\<close>

text \<open>
  The middleware either answers the request itself or calls \<^verbatim>\<open>next()\<close> with
  \<^verbatim>\<open>req.user\<close> set. \<^verbatim>\<open>authHeader && authHeader.split(' ')[1]\<close> is \<^verbatim>\<open>undefined\<close> for an
  absent header, the empty string for an empty header (the left operand of \<^verbatim>\<open>&&\<close> is
  falsy and is the result), and the second piece of the split otherwise.
  \<^verbatim>\<open>token == null\<close> holds for \<^verbatim>\<open>undefined\<close> only.
\<close>

datatype guard_result = Respond response | Next jwt_claims

definition bearer_token :: "string option \<Rightarrow> string option" where
  "bearer_token authHeader =
     (case authHeader of
        None \<Rightarrow> None
      | Some h \<Rightarrow> if h = [] then Some [] else js_index (js_split CHR '' '' h) 1)"

definition authenticateToken :: "verify_fn \<Rightarrow> string option \<Rightarrow> guard_result" where
  "authenticateToken verify authHeader =
     (case bearer_token authHeader of
        None \<Rightarrow> Respond (sendStatus 401)
      | Some token \<Rightarrow>
          (case verify token JWT_SECRET of
             Inl err \<Rightarrow> Respond (sendStatus 403)
           | Inr user \<Rightarrow> Next user))"

section \<open>Database\<close>

text \<open>
  The two tables of \<^verbatim>\<open>cms.db\<close>, each with the counter that \<^verbatim>\<open>AUTOINCREMENT\<close> keeps
  for it (the largest row id the table ever held). \<^verbatim>\<open>title\<close>, \<^verbatim>\<open>email\<close> and
  \<^verbatim>\<open>password\<close> are \<^verbatim>\<open>NOT NULL\<close>; \<^verbatim>\<open>content\<close> may be \<^verbatim>\<open>NULL\<close> (\<open>None\<close>). Failures of
  the storage itself (I/O, locking) are not modelled: a statement fails only by a
  constraint of the schema.
\<close>

record user_row =
  u_id :: int
  u_email :: string
  u_password :: string

record page_row =
  p_id :: int
  p_title :: string
  p_content :: "string option"
  p_userId :: int

record db =
  users :: "user_row list"
  users_seq :: int
  pages :: "page_row list"
  pages_seq :: int

datatype sqlite_error = SQLITE_CONSTRAINT | SQLITE_ERROR

definition empty_db :: db where
  "empty_db = \<lparr>users = [], users_seq = 0, pages = [], pages_seq = 0\<rparr>"

text \<open>The row id of a new row: one more than the largest the table holds or ever held.\<close>

definition next_rowid :: "int \<Rightarrow> int list \<Rightarrow> int" where
  "next_rowid seq ids = Max (insert seq (set ids)) + 1"

text \<open>
  \<^verbatim>\<open>INSERT INTO users (email, password) VALUES (?, ?)\<close>. An \<^verbatim>\<open>undefined\<close> parameter is
  bound as \<^verbatim>\<open>NULL\<close>. The result is the new database and \<^verbatim>\<open>this.lastID\<close>.
\<close>

definition insert_user :: "db \<Rightarrow> string option \<Rightarrow> string option \<Rightarrow> sqlite_error + db \<times> int" where
  "insert_user d email password =
     (case (email, password) of
        (Some e, Some p) \<Rightarrow>
          if e \<in> set (map u_email (users d)) then Inl SQLITE_CONSTRAINT
          else (let i = next_rowid (users_seq d) (map u_id (users d))
                in Inr (d\<lparr>users := users d @ [\<lparr>u_id = i, u_email = e, u_password = p\<rparr>],
                           users_seq := i\<rparr>, i))
      | _ \<Rightarrow> Inl SQLITE_CONSTRAINT)"

text \<open>\<^verbatim>\<open>SELECT * FROM users WHERE email = ?\<close> through \<^verbatim>\<open>db.get\<close>: the first row, if any.\<close>

definition select_user :: "db \<Rightarrow> string \<Rightarrow> sqlite_error + user_row option" where
  "select_user d email = Inr (find (\<lambda>u. u_email u = email) (users d))"

text \<open>\<^verbatim>\<open>SELECT id, title, content FROM pages WHERE userId = ?\<close> through \<^verbatim>\<open>db.all\<close>.\<close>

definition select_pages :: "db \<Rightarrow> int \<Rightarrow> sqlite_error + (int \<times> string \<times> string option) list" where
  "select_pages d userId =
     Inr (map (\<lambda>p. (p_id p, p_title p, p_content p))
            (filter (\<lambda>p. p_userId p = userId) (pages d)))"

text \<open>\<^verbatim>\<open>INSERT INTO pages (title, content, userId) VALUES (?, ?, ?)\<close>.\<close>

definition insert_page ::
  "db \<Rightarrow> string option \<Rightarrow> string option \<Rightarrow> int \<Rightarrow> sqlite_error + db \<times> int" where
  "insert_page d title content userId =
     (case title of
        None \<Rightarrow> Inl SQLITE_CONSTRAINT
      | Some t \<Rightarrow>
          (let i = next_rowid (pages_seq d) (map p_id (pages d))
           in Inr (d\<lparr>pages := pages d @
                        [\<lparr>p_id = i, p_title = t, p_content = content, p_userId = userId\<rparr>],
                      pages_seq := i\<rparr>, i)))"

text \<open>
  \<^verbatim>\<open>UPDATE pages SET title = ?, content = ? WHERE id = ? AND userId = ?\<close>. The result is
  the new database and \<^verbatim>\<open>this.changes\<close>, the number of rows matched.
\<close>

definition matches :: "int \<Rightarrow> int \<Rightarrow> page_row \<Rightarrow> bool" where
  "matches pageId userId p = (p_id p = pageId \<and> p_userId p = userId)"

definition update_page ::
  "db \<Rightarrow> string option \<Rightarrow> string option \<Rightarrow> int \<Rightarrow> int \<Rightarrow> sqlite_error + db \<times> nat" where
  "update_page d title content pageId userId =
     (let n = length (filter (matches pageId userId) (pages d))
      in case title of
           None \<Rightarrow> if n = 0 then Inr (d, 0) else Inl SQLITE_CONSTRAINT
         | Some t \<Rightarrow>
             Inr (d\<lparr>pages := map (\<lambda>p. if matches pageId userId p
                                       then p\<lparr>p_title := t, p_content := content\<rparr> else p)
                                 (pages d)\<rparr>, n))"

text \<open>\<^verbatim>\<open>DELETE FROM pages WHERE id = ? AND userId = ?\<close>.\<close>

definition delete_page :: "db \<Rightarrow> int \<Rightarrow> int \<Rightarrow> sqlite_error + db \<times> nat" where
  "delete_page d pageId userId =
     Inr (d\<lparr>pages := filter (\<lambda>p. \<not> matches pageId userId p) (pages d)\<rparr>,
          length (filter (matches pageId userId) (pages d)))"

section \<open>Routes\<close>

text \<open>
  \<^verbatim>\<open>bcrypt.hash(password, 10)\<close> and \<^verbatim>\<open>bcrypt.compare(password, hash)\<close> are parameters of
  the routes that call them. \<open>None\<close> from the hash stands for a rejected promise, which
  the \<^verbatim>\<open>catch\<close> of the registration route answers.
\<close>

type_synonym hash_fn = "string \<Rightarrow> nat \<Rightarrow> string option"
type_synonym compare_fn = "string \<Rightarrow> string \<Rightarrow> bool"

record credentials_body =
  email :: "string option"
  password :: "string option"

record page_body =
  title :: "string option"
  content :: "string option"

subsection \<open>Registration and login\<close>

definition post_register :: "hash_fn \<Rightarrow> db \<Rightarrow> credentials_body \<Rightarrow> db \<times> response" where
  "post_register bcrypt_hash d req =
     (if \<not> truthy (email req) \<or> \<not> truthy (password req)
      then (d, json 400 (Message ''Email and password are required.''))
      else
        (case bcrypt_hash (the (password req)) 10 of
           None \<Rightarrow> (d, json 500 (Message ''Server error during registration.''))
         | Some hashedPassword \<Rightarrow>
             (case insert_user d (email req) (Some hashedPassword) of
                Inl err \<Rightarrow>
                  if err = SQLITE_CONSTRAINT
                  then (d, json 409 (Message ''Email already in use.''))
                  else (d, json 500 (Message ''Database error during registration.''))
              | Inr (d', lastID) \<Rightarrow>
                  (d', json 201 (UserCreated ''User created successfully.'' lastID)))))"

definition post_login :: "compare_fn \<Rightarrow> sign_fn \<Rightarrow> db \<Rightarrow> credentials_body \<Rightarrow> response" where
  "post_login bcrypt_compare sign d req =
     (if \<not> truthy (email req) \<or> \<not> truthy (password req)
      then json 400 (Message ''Email and password are required.'')
      else
        (case select_user d (the (email req)) of
           Inl err \<Rightarrow> json 500 (Message ''Database error during login.'')
         | Inr None \<Rightarrow> json 401 (Message ''Invalid credentials.'')
         | Inr (Some user) \<Rightarrow>
             if \<not> bcrypt_compare (the (password req)) (u_password user)
             then json 401 (Message ''Invalid credentials.'')
             else json 200 (AccessToken
                    (sign \<lparr>jwt_id = u_id user, jwt_email = u_email user\<rparr> JWT_SECRET 3600))))"

subsection \<open>Page handlers, behind the middleware\<close>

text \<open>Each handler runs with \<^verbatim>\<open>req.user\<close> as the middleware set it.\<close>

definition get_pages :: "db \<Rightarrow> jwt_claims \<Rightarrow> db \<times> response" where
  "get_pages d user =
     (let userId = jwt_id user
      in case select_pages d userId of
           Inl err \<Rightarrow> (d, json 500 (Message ''Could not retrieve pages.''))
         | Inr rows \<Rightarrow> (d, json 200 (PageRows rows)))"

definition post_pages :: "db \<Rightarrow> jwt_claims \<Rightarrow> page_body \<Rightarrow> db \<times> response" where
  "post_pages d user req =
     (let userId = jwt_id user
      in if \<not> truthy (title req) then (d, json 400 (Message ''Title is required.''))
         else
           (case insert_page d (title req) (Some (or_else (content req) [])) userId of
              Inl err \<Rightarrow> (d, json 500 (Message ''Could not create page.''))
            | Inr (d', lastID) \<Rightarrow>
                (d', json 201 (PageCreated lastID (the (title req)) (content req) userId))))"

definition put_pages :: "db \<Rightarrow> jwt_claims \<Rightarrow> int \<Rightarrow> page_body \<Rightarrow> db \<times> response" where
  "put_pages d user pageId req =
     (let userId = jwt_id user
      in if \<not> truthy (title req) then (d, json 400 (Message ''Title is required.''))
         else
           (case update_page d (title req) (content req) pageId userId of
              Inl err \<Rightarrow> (d, json 500 (Message ''Could not update page.''))
            | Inr (d', changes) \<Rightarrow>
                if changes = 0
                then (d', json 404
                       (Message ''Page not found or you don't have permission to edit it.''))
                else (d', json 200 (Message ''Page updated successfully.''))))"

definition delete_pages :: "db \<Rightarrow> jwt_claims \<Rightarrow> int \<Rightarrow> db \<times> response" where
  "delete_pages d user pageId =
     (let userId = jwt_id user
      in case delete_page d pageId userId of
           Inl err \<Rightarrow> (d, json 500 (Message ''Could not delete page.''))
         | Inr (d', changes) \<Rightarrow>
             if changes = 0
             then (d', json 404
                    (Message ''Page not found or you don't have permission to delete it.''))
             else (d', \<lparr>status = 204, body = NoBody\<rparr>))"

subsection \<open>The server\<close>

text \<open>
  A route registered with \<^verbatim>\<open>authenticateToken\<close> runs its handler only when the middleware
  calls \<^verbatim>\<open>next()\<close>; otherwise the middleware's answer is the response and the database is
  not touched.
\<close>

definition protected ::
  "verify_fn \<Rightarrow> string option \<Rightarrow> db \<Rightarrow> (jwt_claims \<Rightarrow> db \<times> response) \<Rightarrow> db \<times> response" where
  "protected verify authHeader d handler =
     (case authenticateToken verify authHeader of
        Respond r \<Rightarrow> (d, r)
      | Next user \<Rightarrow> handler user)"

record env =
  bcrypt_hash :: hash_fn
  bcrypt_compare :: compare_fn
  jwt_sign :: sign_fn
  jwt_verify :: verify_fn

text \<open>
  A request to one of the six routes: the \<^verbatim>\<open>authorization\<close> header where the route is
  protected, the \<^verbatim>\<open>:id\<close> of the path as the integer it denotes, and the body.
\<close>

datatype request =
    PostRegister credentials_body
  | PostLogin credentials_body
  | GetPages "string option"
  | PostPages "string option" page_body
  | PutPages "string option" int page_body
  | DeletePages "string option" int

fun handle :: "env \<Rightarrow> db \<Rightarrow> request \<Rightarrow> db \<times> response" where
  "handle e d (PostRegister b) = post_register (bcrypt_hash e) d b"
| "handle e d (PostLogin b) = (d, post_login (bcrypt_compare e) (jwt_sign e) d b)"
| "handle e d (GetPages h) = protected (jwt_verify e) h d (get_pages d)"
| "handle e d (PostPages h b) = protected (jwt_verify e) h d (\<lambda>user. post_pages d user b)"
| "handle e d (PutPages h i b) = protected (jwt_verify e) h d (\<lambda>user. put_pages d user i b)"
| "handle e d (DeletePages h i) = protected (jwt_verify e) h d (\<lambda>user. delete_pages d user i)"

text \<open>
  The server answers requests one after the other (every statement is serialized by the
  database handle); each request comes with the library behaviour at its moment.
\<close>

fun serve :: "db \<Rightarrow> (env \<times> request) list \<Rightarrow> db" where
  "serve d [] = d"
| "serve d ((e, r) # rs) = serve (fst (handle e d r)) rs"

section \<open>Notions used by the properties\<close>

subsection \<open>Pieces of the header\<close>

text \<open>
  The text between the first and the second space of a header, written without the
  split: what follows the first space, up to the next one.
\<close>

definition second_piece :: "string \<Rightarrow> string" where
  "second_piece h =
     takeWhile (\<lambda>x. x \<noteq> CHR '' '') (tl (dropWhile (\<lambda>x. x \<noteq> CHR '' '') h))"

text \<open>
  The header shape the specification names, \<^verbatim>\<open>Bearer <token>\<close>: the word, one space, and
  a non-empty token without spaces. This definition follows the specification's words; the
  middleware does not use it.
\<close>

definition spec_bearer_shape :: "string \<Rightarrow> bool" where
  "spec_bearer_shape h =
     (take 7 h = ''Bearer '' \<and> drop 7 h \<noteq> [] \<and> CHR '' '' \<notin> set (drop 7 h))"

subsection \<open>The token library\<close>

text \<open>
  A token as the library sees it once decoded: the claims, and the key its signature was
  made with (the signature checks against a key exactly when it is that key).
\<close>

record jwt =
  jwt_body :: jwt_claims
  jwt_key :: string

text \<open>
  Modelled from the spec: the token library behind \<^verbatim>\<open>jwt.sign\<close> is a dependency and not
  among the sources. Section 4.2: \<^verbatim>\<open>issue\<close> embeds the subject's id and email plus the
  issuance and expiry timestamps, expiry = issuance + the lifetime, signed with the
  server's key.
\<close>

definition issue :: "nat \<Rightarrow> jwt_payload \<Rightarrow> string \<Rightarrow> nat \<Rightarrow> jwt" where
  "issue now payload secret expiresIn =
     \<lparr>jwt_body = \<lparr>jwt_id = jwt_id payload, jwt_email = jwt_email payload,
                  jwt_iat = now, jwt_exp = now + expiresIn\<rparr>,
      jwt_key = secret\<rparr>"

text \<open>
  Modelled from the spec: the token library behind \<^verbatim>\<open>jwt.verify\<close> is a dependency and not
  among the sources. Section 4.2: \<^verbatim>\<open>verify\<close> fails with \<^verbatim>\<open>InvalidToken\<close> if the signature
  does not check out against the server secret, or with \<^verbatim>\<open>ExpiredToken\<close> if the current
  time exceeds the embedded expiry; on success it returns the decoded claims.
\<close>

definition check :: "nat \<Rightarrow> jwt \<Rightarrow> string \<Rightarrow> jwt_error + jwt_claims" where
  "check now t secret =
     (if jwt_key t \<noteq> secret then Inl JsonWebTokenError
      else if jwt_exp (jwt_body t) < now then Inl TokenExpiredError
      else Inr (jwt_body t))"

text \<open>
  The text of a token on the wire is left to two parameters, \<open>encode\<close> and \<open>decode\<close>;
  text that decodes to nothing is an invalid token. \<open>now\<close> is the clock in seconds when
  the library is called.
\<close>

definition sign_at :: "(jwt \<Rightarrow> string) \<Rightarrow> nat \<Rightarrow> sign_fn" where
  "sign_at encode now payload secret expiresIn = encode (issue now payload secret expiresIn)"

definition verify_at :: "(string \<Rightarrow> jwt option) \<Rightarrow> nat \<Rightarrow> verify_fn" where
  "verify_at decode now token secret =
     (case decode token of
        None \<Rightarrow> Inl JsonWebTokenError
      | Some t \<Rightarrow> check now t secret)"

subsection \<open>A wire format\<close>

text \<open>
  One way to write a token as text without spaces and read it back, for the properties
  that need some wire format to exist: numbers in binary, least significant digit
  first and closed by a dot; text with a mark before every character (a space is
  written as a mark of its own) and closed by a dot. It is not the format of the
  library; the key stands where the signature would.
\<close>

fun enc_nat :: "nat \<Rightarrow> string" where
  "enc_nat n =
     (if n = 0 then ''.''
      else (if even n then CHR ''0'' else CHR ''1'') # enc_nat (n div 2))"

declare enc_nat.simps [simp del]

fun dec_nat :: "string \<Rightarrow> (nat \<times> string) option" where
  "dec_nat [] = None"
| "dec_nat (x # r) =
     (if x = CHR ''.'' then Some (0, r)
      else if x = CHR ''0'' then map_option (\<lambda>(m, rest). (2 * m, rest)) (dec_nat r)
      else if x = CHR ''1'' then map_option (\<lambda>(m, rest). (2 * m + 1, rest)) (dec_nat r)
      else None)"

definition enc_int :: "int \<Rightarrow> string" where
  "enc_int i = (if i < 0 then CHR ''n'' else CHR ''p'') # enc_nat (nat \<bar>i\<bar>)"

definition dec_int :: "string \<Rightarrow> (int \<times> string) option" where
  "dec_int s =
     (case s of
        [] \<Rightarrow> None
      | x # r \<Rightarrow>
          if x = CHR ''n'' then map_option (\<lambda>(m, rest). (- int m, rest)) (dec_nat r)
          else if x = CHR ''p'' then map_option (\<lambda>(m, rest). (int m, rest)) (dec_nat r)
          else None)"

fun enc_str :: "string \<Rightarrow> string" where
  "enc_str [] = ''.''"
| "enc_str (c # s) = (if c = CHR '' '' then ''-s'' else [CHR ''+'', c]) @ enc_str s"

fun dec_str :: "string \<Rightarrow> (string \<times> string) option" where
  "dec_str [] = None"
| "dec_str [x] = (if x = CHR ''.'' then Some ([], []) else None)"
| "dec_str (x # y # r) =
     (if x = CHR ''.'' then Some ([], y # r)
      else if x = CHR ''+'' then map_option (\<lambda>(s, rest). (y # s, rest)) (dec_str r)
      else if x = CHR ''-'' then map_option (\<lambda>(s, rest). (CHR '' '' # s, rest)) (dec_str r)
      else None)"

definition wire_encode :: "jwt \<Rightarrow> string" where
  "wire_encode t =
     enc_int (jwt_id (jwt_body t)) @ enc_str (jwt_email (jwt_body t)) @
     enc_nat (jwt_iat (jwt_body t)) @ enc_nat (jwt_exp (jwt_body t)) @ enc_str (jwt_key t)"

definition wire_decode :: "string \<Rightarrow> jwt option" where
  "wire_decode s =
     (case dec_int s of
        None \<Rightarrow> None
      | Some (i, r1) \<Rightarrow>
          (case dec_str r1 of
             None \<Rightarrow> None
           | Some (e, r2) \<Rightarrow>
               (case dec_nat r2 of
                  None \<Rightarrow> None
                | Some (a, r3) \<Rightarrow>
                    (case dec_nat r3 of
                       None \<Rightarrow> None
                     | Some (x, r4) \<Rightarrow>
                         (case dec_str r4 of
                            None \<Rightarrow> None
                          | Some (k, r5) \<Rightarrow>
                              if r5 = []
                              then Some \<lparr>jwt_body = \<lparr>jwt_id = i, jwt_email = e,
                                                     jwt_iat = a, jwt_exp = x\<rparr>,
                                         jwt_key = k\<rparr>
                              else None)))))"

subsection \<open>Well-formed databases\<close>

text \<open>
  What the schema guarantees of every state: \<^verbatim>\<open>id\<close> is a primary key of each table and
  never exceeds the table's counter, and \<^verbatim>\<open>email\<close> is unique.
\<close>

definition wf_db :: "db \<Rightarrow> bool" where
  "wf_db d =
     (distinct (map p_id (pages d)) \<and> list_all (\<lambda>p. p_id p \<le> pages_seq d) (pages d) \<and>
      distinct (map u_id (users d)) \<and> list_all (\<lambda>u. u_id u \<le> users_seq d) (users d) \<and>
      distinct (map u_email (users d)))"

text \<open>The rows of a listing that carry a given id.\<close>

definition rows_with :: "int \<Rightarrow> (int \<times> string \<times> string option) list \<Rightarrow>
    (int \<times> string \<times> string option) list" where
  "rows_with i rows = filter (\<lambda>r. fst r = i) rows"

subsection \<open>The scenario of the specification\<close>

text \<open>
  Alice and Bob of the specification's scenario, a token text that decodes to a token
  issued to Alice at time 0, and a password hash that is checked by recomputing it.
\<close>

definition alice :: jwt_payload where
  "alice = \<lparr>jwt_id = 1, jwt_email = ''alice@example.com''\<rparr>"

definition alice_user :: jwt_claims where
  "alice_user = \<lparr>jwt_id = 1, jwt_email = ''alice@example.com'', jwt_iat = 0, jwt_exp = 3600\<rparr>"

definition bob_user :: jwt_claims where
  "bob_user = \<lparr>jwt_id = 2, jwt_email = ''bob@example.com'', jwt_iat = 0, jwt_exp = 3600\<rparr>"

definition demo_encode :: "jwt \<Rightarrow> string" where
  "demo_encode t = ''tokenA''"

definition demo_decode :: "string \<Rightarrow> jwt option" where
  "demo_decode s = (if s = ''tokenA'' then Some (issue 0 alice JWT_SECRET 3600) else None)"

definition demo_hash :: hash_fn where
  "demo_hash pw cost = Some (CHR ''#'' # pw)"

definition demo_compare :: compare_fn where
  "demo_compare pw h = (h = CHR ''#'' # pw)"

definition demo_env :: "nat \<Rightarrow> env" where
  "demo_env now =
     \<lparr>bcrypt_hash = demo_hash, bcrypt_compare = demo_compare,
      jwt_sign = sign_at demo_encode now, jwt_verify = verify_at demo_decode now\<rparr>"

definition alice_db :: db where
  "alice_db =
     \<lparr>users = [\<lparr>u_id = 1, u_email = ''alice@example.com'', u_password = ''#pw1''\<rparr>,
               \<lparr>u_id = 2, u_email = ''bob@example.com'', u_password = ''#pw2''\<rparr>],
      users_seq = 2,
      pages = [\<lparr>p_id = 1, p_title = ''Hi'', p_content = Some ''<p>old</p>'', p_userId = 1\<rparr>],
      pages_seq = 1\<rparr>"

section \<open>Splitting a header\<close>

lemma js_split_not_Nil: "js_split c s \<noteq> []"
  by (induction s) (auto simp: Let_def)

lemma js_split_no_sep: "c \<notin> set s \<Longrightarrow> js_split c s = [s]"
  by (induction s) (auto simp: Let_def)

lemma js_split_sep: "c \<notin> set w \<Longrightarrow> js_split c (w @ c # t) = w # js_split c t"
  by (induction w) (auto simp: Let_def)

lemma js_split_hd: "hd (js_split c s) = takeWhile (\<lambda>x. x \<noteq> c) s"
  by (induction s) (auto simp: Let_def)

lemma bearer_token_no_space:
  "h \<noteq> [] \<Longrightarrow> CHR '' '' \<notin> set h \<Longrightarrow> bearer_token (Some h) = None"
  by (simp add: bearer_token_def js_split_no_sep js_index_def)

lemma bearer_token_space:
  assumes "CHR '' '' \<in> set h"
  shows "bearer_token (Some h) = Some (second_piece h)"
proof -
  from assms obtain w t where h: "h = w @ CHR '' '' # t" and w: "CHR '' '' \<notin> set w"
    by (meson split_list_first)
  have "js_split CHR '' '' h = w # js_split CHR '' '' t"
    using h w by (simp add: js_split_sep)
  moreover have "js_split CHR '' '' t = hd (js_split CHR '' '' t) # tl (js_split CHR '' '' t)"
    using js_split_not_Nil by simp
  ultimately have "js_index (js_split CHR '' '' h) 1 = Some (takeWhile (\<lambda>x. x \<noteq> CHR '' '') t)"
    by (metis One_nat_def js_index_def js_split_hd length_Cons nth_Cons_0 nth_Cons_Suc
        zero_less_Suc Suc_less_eq)
  moreover have "second_piece h = takeWhile (\<lambda>x. x \<noteq> CHR '' '') t"
  proof -
    have "dropWhile (\<lambda>x. x \<noteq> CHR '' '') w = []" using w by (induction w) auto
    then show ?thesis using h by (simp add: second_piece_def dropWhile_append)
  qed
  ultimately show ?thesis using h by (simp add: bearer_token_def)
qed

lemma bearer_token_empty: "bearer_token (Some []) = Some (second_piece [])"
  by (simp add: bearer_token_def second_piece_def)

lemma second_piece_scheme:
  "CHR '' '' \<notin> set scheme \<Longrightarrow> CHR '' '' \<notin> set token \<Longrightarrow>
   second_piece (scheme @ CHR '' '' # token) = token"
proof -
  assume s: "CHR '' '' \<notin> set scheme" and t: "CHR '' '' \<notin> set token"
  have "dropWhile (\<lambda>x. x \<noteq> CHR '' '') scheme = []" using s by (induction scheme) auto
  moreover have "takeWhile (\<lambda>x. x \<noteq> CHR '' '') token = token" using t by (induction token) auto
  ultimately show ?thesis by (simp add: second_piece_def dropWhile_append)
qed

lemma protected_rejects:
  "authenticateToken verify a = Respond r \<Longrightarrow> protected verify a d handler = (d, r)"
  by (simp add: protected_def)

lemma protected_next:
  "authenticateToken verify a = Next user \<Longrightarrow> protected verify a d handler = handler user"
  by (simp add: protected_def)

section \<open>The middleware\<close>

text \<open>
  Claim C9. The middleware never looks at the scheme word of the header. Whatever stands
  before the first space (\<^verbatim>\<open>Bearer\<close>, \<^verbatim>\<open>Basic\<close>, \<^verbatim>\<open>X\<close>, or nothing), a header whose
  second space-separated piece is a token the verifier accepts is authenticated as that
  token's subject, and the protected route runs its handler with that identity.
\<close>

theorem scheme_word_not_inspected:
  assumes "CHR '' '' \<notin> set scheme" and "CHR '' '' \<notin> set token"
    and "verify token JWT_SECRET = Inr user"
  shows "authenticateToken verify (Some (scheme @ CHR '' '' # token)) = Next user \<and>
         protected verify (Some (scheme @ CHR '' '' # token)) d handler = handler user"
proof -
  have "bearer_token (Some (scheme @ CHR '' '' # token)) = Some token"
    using assms(1,2) by (simp add: bearer_token_space second_piece_scheme)
  then have "authenticateToken verify (Some (scheme @ CHR '' '' # token)) = Next user"
    using assms(3) by (simp add: authenticateToken_def)
  then show ?thesis by (simp add: protected_next)
qed

theorem scheme_word_not_inspected_witness:
  "CHR '' '' \<notin> set ''Basic'' \<and> CHR '' '' \<notin> set ''tokenA'' \<and>
   verify_at demo_decode 10 ''tokenA'' JWT_SECRET = Inr alice_user \<and>
   authenticateToken (verify_at demo_decode 10) (Some ''Basic tokenA'') = Next alice_user \<and>
   protected (verify_at demo_decode 10) (Some ''Basic tokenA'') alice_db (get_pages alice_db)
     = get_pages alice_db alice_user"
proof -
  have v: "verify_at demo_decode 10 ''tokenA'' JWT_SECRET = Inr alice_user"
    by (simp add: verify_at_def demo_decode_def check_def issue_def alice_def alice_user_def)
  have s: "CHR '' '' \<notin> set ''Basic''" and t: "CHR '' '' \<notin> set ''tokenA''" by simp_all
  show ?thesis
    using scheme_word_not_inspected [of "''Basic''" "''tokenA''" "verify_at demo_decode 10"
        alice_user alice_db "get_pages alice_db"] s t v by simp
qed

text \<open>
  Claim C3, as the code has it. The middleware answers 401 when the header is absent,
  and when it is a non-empty text without a space (there is no second piece). An empty
  header, and a header with a space, has its second space-separated piece verified,
  whatever the scheme word and even when that piece is empty: a verification error is
  answered 403, a success attaches the decoded identity and the request proceeds. When
  the middleware answers, every protected route returns that answer with the database
  as it was; when it proceeds, the route is its handler run for the decoded identity.
\<close>

theorem guard_outcomes:
  "authenticateToken verify None = Respond (sendStatus 401) \<and>
   (h \<noteq> [] \<and> CHR '' '' \<notin> set h \<longrightarrow>
      authenticateToken verify (Some h) = Respond (sendStatus 401)) \<and>
   (h = [] \<or> CHR '' '' \<in> set h \<longrightarrow>
      authenticateToken verify (Some h) =
        (case verify (second_piece h) JWT_SECRET of
           Inl err \<Rightarrow> Respond (sendStatus 403)
         | Inr user \<Rightarrow> Next user)) \<and>
   (authenticateToken (jwt_verify e) a = Respond r \<longrightarrow>
      handle e d (GetPages a) = (d, r) \<and> handle e d (PostPages a b) = (d, r) \<and>
      handle e d (PutPages a i b) = (d, r) \<and> handle e d (DeletePages a i) = (d, r)) \<and>
   (authenticateToken (jwt_verify e) a = Next user \<longrightarrow>
      handle e d (GetPages a) = get_pages d user \<and>
      handle e d (PostPages a b) = post_pages d user b \<and>
      handle e d (PutPages a i b) = put_pages d user i b \<and>
      handle e d (DeletePages a i) = delete_pages d user i)"
proof -
  have 1: "authenticateToken verify None = Respond (sendStatus 401)"
    by (simp add: authenticateToken_def bearer_token_def)
  have 2: "authenticateToken verify (Some h) = Respond (sendStatus 401)"
    if "h \<noteq> []" "CHR '' '' \<notin> set h"
    using that by (simp add: authenticateToken_def bearer_token_no_space)
  have 3: "authenticateToken verify (Some h) =
        (case verify (second_piece h) JWT_SECRET of
           Inl err \<Rightarrow> Respond (sendStatus 403)
         | Inr user \<Rightarrow> Next user)" if "h = [] \<or> CHR '' '' \<in> set h"
    using that by (auto simp: authenticateToken_def bearer_token_space bearer_token_empty)
  show ?thesis
    using 1 2 3 by (simp add: protected_rejects protected_next)
qed

theorem guard_outcomes_witness:
  "''Bearer'' \<noteq> [] \<and> CHR '' '' \<notin> set ''Bearer'' \<and> CHR '' '' \<in> set ''Bearer tokenA'' \<and>
   authenticateToken (verify_at demo_decode 10) (Some ''Bearer'') = Respond (sendStatus 401) \<and>
   authenticateToken (verify_at demo_decode 10) (Some ''Bearer tokenA'') = Next alice_user \<and>
   authenticateToken (verify_at demo_decode 3601) (Some ''Bearer tokenA'') = Respond (sendStatus 403) \<and>
   handle (demo_env 3601) alice_db (GetPages (Some ''Bearer tokenA'')) = (alice_db, sendStatus 403) \<and>
   handle (demo_env 10) alice_db (GetPages (Some ''Bearer tokenA'')) = get_pages alice_db alice_user"
proof -
  have v: "verify_at demo_decode 10 ''tokenA'' JWT_SECRET = Inr alice_user"
    by (simp add: verify_at_def demo_decode_def check_def issue_def alice_def alice_user_def)
  have x: "verify_at demo_decode 3601 ''tokenA'' JWT_SECRET = Inl TokenExpiredError"
    by (simp add: verify_at_def demo_decode_def check_def issue_def alice_def)
  have p: "second_piece ''Bearer tokenA'' = ''tokenA''" by (simp add: second_piece_def)
  have a: "authenticateToken (verify_at demo_decode 10) (Some ''Bearer'') = Respond (sendStatus 401)"
    using guard_outcomes [of "verify_at demo_decode 10" "''Bearer''"] by simp
  have b: "authenticateToken (verify_at demo_decode 10) (Some ''Bearer tokenA'') = Next alice_user"
    using guard_outcomes [of "verify_at demo_decode 10" "''Bearer tokenA''"] v p by simp
  have c: "authenticateToken (verify_at demo_decode 3601) (Some ''Bearer tokenA'')
             = Respond (sendStatus 403)"
    using guard_outcomes [of "verify_at demo_decode 3601" "''Bearer tokenA''"] x p by simp
  have d: "handle (demo_env 3601) alice_db (GetPages (Some ''Bearer tokenA'')) = (alice_db, sendStatus 403)"
    using guard_outcomes [of _ _ "demo_env 3601" "Some ''Bearer tokenA''" "sendStatus 403" alice_db] c
    by (simp add: demo_env_def)
  have e: "handle (demo_env 10) alice_db (GetPages (Some ''Bearer tokenA'')) = get_pages alice_db alice_user"
    using guard_outcomes [of _ _ "demo_env 10" "Some ''Bearer tokenA''" _ _ _ _ alice_user] b
    by (simp add: demo_env_def)
  show ?thesis using a b c d e by simp
qed

text \<open>
  A header that is not of the shape \<^verbatim>\<open>Bearer <token>\<close> is not always answered 401:
  \<^verbatim>\<open>Bearer\<close> followed by a space and nothing is answered 403, and \<^verbatim>\<open>Basic\<close> with a
  valid token is let through.
\<close>

theorem malformed_header_counterexample:
  "\<not> spec_bearer_shape ''Bearer '' \<and>
   authenticateToken (verify_at demo_decode 10) (Some ''Bearer '') = Respond (sendStatus 403) \<and>
   authenticateToken (verify_at demo_decode 10) (Some ''Bearer '') \<noteq> Respond (sendStatus 401) \<and>
   \<not> spec_bearer_shape ''Basic tokenA'' \<and>
   authenticateToken (verify_at demo_decode 10) (Some ''Basic tokenA'') = Next alice_user"
  by (simp add: spec_bearer_shape_def authenticateToken_def bearer_token_def js_index_def Let_def
      verify_at_def demo_decode_def check_def issue_def alice_def alice_user_def sendStatus_def)

section \<open>The page store\<close>

lemma next_rowid_above: "x \<in> set ids \<Longrightarrow> x < next_rowid seq ids"
  and next_rowid_above_seq: "seq < next_rowid seq ids"
  by (simp_all add: next_rowid_def less_Suc_eq_le add1_zle_eq[symmetric] Max_ge)

lemma next_rowid_fresh: "next_rowid seq ids \<notin> set ids"
  using next_rowid_above by fastforce

lemma same_id_same_page:
  "distinct (map p_id ps) \<Longrightarrow> p \<in> set ps \<Longrightarrow> q \<in> set ps \<Longrightarrow> p_id q = p_id p \<Longrightarrow> q = p"
  by (meson distinct_map inj_onD)

lemma foreign_page_no_match:
  assumes "wf_db d" and "p \<in> set (pages d)" and "p_userId p \<noteq> uid"
  shows "filter (matches (p_id p) uid) (pages d) = []"
proof -
  have "\<not> matches (p_id p) uid q" if "q \<in> set (pages d)" for q
    using assms that same_id_same_page [of "pages d" p q]
    by (auto simp: wf_db_def matches_def)
  then show ?thesis by (simp add: filter_empty_conv)
qed

lemma update_without_match:
  "filter (matches i u) ps = [] \<Longrightarrow> map (\<lambda>p. if matches i u p then f p else p) ps = ps"
  by (induction ps) (auto split: if_splits)

lemma delete_without_match:
  "filter (matches i u) ps = [] \<Longrightarrow> filter (\<lambda>p. \<not> matches i u p) ps = ps"
  by (induction ps) (auto split: if_splits)

lemma select_pages_foreign:
  assumes "wf_db d" and "p \<in> set (pages d)" and "p_userId p \<noteq> uid"
  shows "rows_with (p_id p)
           (map (\<lambda>p. (p_id p, p_title p, p_content p)) (filter (\<lambda>p. p_userId p = uid) (pages d))) = []"
proof -
  have "p_id q \<noteq> p_id p" if "q \<in> set (pages d)" "p_userId q = uid" for q
    using assms that same_id_same_page [of "pages d" p q] by (auto simp: wf_db_def)
  then show ?thesis by (auto simp: rows_with_def filter_empty_conv)
qed

text \<open>
  Claim C1. Ownership isolation. In a well-formed database, take any page and any
  authenticated identity other than the page's owner. The listing answered to that
  identity has no row with the page's id; an update of the page's id by that identity,
  with a title, is answered 404, and whatever the body the database is left as it was;
  a delete of the page's id by that identity is answered 404 with the database as it was.
\<close>

theorem ownership_isolation:
  assumes "wf_db d" and "p \<in> set (pages d)" and "p_userId p \<noteq> jwt_id user"
  shows "(\<exists>rows. get_pages d user = (d, json 200 (PageRows rows)) \<and> rows_with (p_id p) rows = []) \<and>
         (truthy (title req) \<longrightarrow>
            put_pages d user (p_id p) req =
              (d, json 404 (Message ''Page not found or you don't have permission to edit it.''))) \<and>
         fst (put_pages d user (p_id p) req) = d \<and>
         delete_pages d user (p_id p) =
           (d, json 404 (Message ''Page not found or you don't have permission to delete it.''))"
proof -
  note nm = foreign_page_no_match [OF assms]
  have list: "\<exists>rows. get_pages d user = (d, json 200 (PageRows rows)) \<and> rows_with (p_id p) rows = []"
    using select_pages_foreign [OF assms] by (auto simp: get_pages_def select_pages_def)
  have upd: "put_pages d user (p_id p) req =
      (d, json 404 (Message ''Page not found or you don't have permission to edit it.''))"
    if "truthy (title req)"
  proof -
    from that obtain t where t: "title req = Some t" by (auto simp: truthy_def split: option.splits)
    show ?thesis
      using that nm by (simp add: put_pages_def update_page_def t update_without_match)
  qed
  have unchanged: "fst (put_pages d user (p_id p) req) = d"
  proof (cases "truthy (title req)")
    case True
    then show ?thesis using upd by simp
  next
    case False
    then show ?thesis by (simp add: put_pages_def)
  qed
  have del: "delete_pages d user (p_id p) =
           (d, json 404 (Message ''Page not found or you don't have permission to delete it.''))"
    using nm by (simp add: delete_pages_def delete_page_def delete_without_match)
  show ?thesis using list upd unchanged del by blast
qed


theorem ownership_isolation_witness:
  "wf_db alice_db \<and>
   \<lparr>p_id = 1, p_title = ''Hi'', p_content = Some ''<p>old</p>'', p_userId = 1\<rparr> \<in> set (pages alice_db) \<and>
   (1::int) \<noteq> jwt_id bob_user \<and> truthy (Some ''Hack'') \<and>
   get_pages alice_db bob_user = (alice_db, json 200 (PageRows [])) \<and>
   put_pages alice_db bob_user 1 \<lparr>title = Some ''Hack'', content = None\<rparr> =
     (alice_db, json 404 (Message ''Page not found or you don't have permission to edit it.'')) \<and>
   delete_pages alice_db bob_user 1 =
     (alice_db, json 404 (Message ''Page not found or you don't have permission to delete it.''))"
proof -
  let ?p = "\<lparr>p_id = 1, p_title = ''Hi'', p_content = Some ''<p>old</p>'', p_userId = 1\<rparr>"
  have w: "wf_db alice_db" by (simp add: wf_db_def alice_db_def)
  have m: "?p \<in> set (pages alice_db)" by (simp add: alice_db_def)
  have o: "p_userId ?p \<noteq> jwt_id bob_user" by (simp add: bob_user_def)
  have t: "truthy (Some ''Hack'')" by (simp add: truthy_def)
  have g: "get_pages alice_db bob_user = (alice_db, json 200 (PageRows []))"
    by (simp add: get_pages_def select_pages_def alice_db_def bob_user_def)
  show ?thesis
    using ownership_isolation [OF w m o, of "\<lparr>title = Some ''Hack'', content = None\<rparr>"] w m o t g
    by simp
qed


lemma rows_with_select:
  "rows_with i (map (\<lambda>p. (p_id p, p_title p, p_content p)) (filter (\<lambda>p. p_userId p = u) ps))
     = map (\<lambda>p. (p_id p, p_title p, p_content p)) (filter (matches i u) ps)"
  by (induction ps) (auto simp: rows_with_def matches_def)

lemma fresh_id_no_match: "i \<notin> set (map p_id ps) \<Longrightarrow> filter (matches i u) ps = []"
  by (induction ps) (auto simp: matches_def)

lemma only_match:
  "distinct (map p_id ps) \<Longrightarrow> p \<in> set ps \<Longrightarrow> filter (matches (p_id p) (p_userId p)) ps = [p]"
proof (induction ps)
  case Nil
  then show ?case by simp
next
  case (Cons a ps)
  show ?case
  proof (cases "a = p")
    case True
    then have "p_id p \<notin> set (map p_id ps)" using Cons.prems by simp
    then show ?thesis using True by (simp add: fresh_id_no_match) (simp add: matches_def)
  next
    case False
    then have "p \<in> set ps" using Cons.prems by simp
    moreover from this have "p_id a \<noteq> p_id p" using Cons.prems by force
    ultimately show ?thesis using Cons by (simp add: matches_def)
  qed
qed

lemma filter_matches_update:
  "filter (matches i u) (map (\<lambda>p. if matches i u p then p\<lparr>p_title := t, p_content := c\<rparr> else p) ps)
     = map (\<lambda>p. p\<lparr>p_title := t, p_content := c\<rparr>) (filter (matches i u) ps)"
  by (induction ps) (auto simp: matches_def)

lemma get_pages_rows:
  "get_pages d user = (d, json 200 (PageRows
      (map (\<lambda>p. (p_id p, p_title p, p_content p)) (filter (\<lambda>p. p_userId p = jwt_id user) (pages d)))))"
  by (simp add: get_pages_def select_pages_def)

text \<open>
  Claim C6. The round trip, from any database and for any identity: creating a page
  with title \<open>T\<close> and content \<open>C\<close> is answered 201 with a new id, and the listing then
  shows exactly one row of that id, with \<open>T\<close> and \<open>C\<close>; updating that id to \<open>T2\<close> and
  \<open>C2\<close> is answered 200, and the listing then shows that row with \<open>T2\<close> and \<open>C2\<close>;
  deleting that id is answered 204, and the listing then has no row of that id.
  Titles are non-empty, as the two writes require.
\<close>

theorem crud_round_trip:
  assumes "T \<noteq> []" and "T2 \<noteq> []"
  shows "\<exists>d1 i l1 d2 l2 d3 l3.
     post_pages d user \<lparr>title = Some T, content = Some C\<rparr>
       = (d1, json 201 (PageCreated i T (Some C) (jwt_id user))) \<and>
     get_pages d1 user = (d1, json 200 (PageRows l1)) \<and> rows_with i l1 = [(i, T, Some C)] \<and>
     put_pages d1 user i \<lparr>title = Some T2, content = Some C2\<rparr>
       = (d2, json 200 (Message ''Page updated successfully.'')) \<and>
     get_pages d2 user = (d2, json 200 (PageRows l2)) \<and> rows_with i l2 = [(i, T2, Some C2)] \<and>
     delete_pages d2 user i = (d3, \<lparr>status = 204, body = NoBody\<rparr>) \<and>
     get_pages d3 user = (d3, json 200 (PageRows l3)) \<and> rows_with i l3 = []"
proof -
  define i where "i = next_rowid (pages_seq d) (map p_id (pages d))"
  define u where "u = jwt_id user"
  define new where "new = \<lparr>p_id = i, p_title = T, p_content = Some C, p_userId = u\<rparr>"
  define new2 where "new2 = \<lparr>p_id = i, p_title = T2, p_content = Some C2, p_userId = u\<rparr>"
  define d1 where "d1 = d\<lparr>pages := pages d @ [new], pages_seq := i\<rparr>"
  define d2 where "d2 = d1\<lparr>pages := pages d @ [new2]\<rparr>"
  define d3 where "d3 = d2\<lparr>pages := pages d\<rparr>"
  have fresh: "filter (matches i u) (pages d) = []"
    unfolding i_def by (rule fresh_id_no_match) (rule next_rowid_fresh)
  have mnew: "matches i u new" "matches i u new2" by (simp_all add: matches_def new_def new2_def)
  have m1: "filter (matches i u) (pages d1) = [new]"
    using fresh mnew by (simp add: d1_def)
  have m2: "filter (matches i u) (pages d2) = [new2]"
    using fresh mnew by (simp add: d2_def)
  have m3: "filter (matches i u) (pages d3) = []"
    using fresh by (simp add: d3_def)
  have "or_else (Some C) [] = C" by (simp add: or_else_def)
  then have create: "post_pages d user \<lparr>title = Some T, content = Some C\<rparr>
       = (d1, json 201 (PageCreated i T (Some C) (jwt_id user)))"
    using assms(1)
    by (simp add: post_pages_def truthy_def insert_page_def Let_def d1_def new_def i_def u_def)
  have upd: "map (\<lambda>p. if matches i u p then p\<lparr>p_title := T2, p_content := Some C2\<rparr> else p) (pages d1)
      = pages d @ [new2]"
    using fresh mnew by (simp add: d1_def update_without_match) (simp add: new_def new2_def)
  have update: "put_pages d1 user i \<lparr>title = Some T2, content = Some C2\<rparr>
       = (d2, json 200 (Message ''Page updated successfully.''))"
    using assms(2) m1 upd
    by (simp add: put_pages_def truthy_def update_page_def Let_def d2_def u_def [symmetric])
  have del: "filter (\<lambda>p. \<not> matches i u p) (pages d2) = pages d"
    using fresh mnew by (simp add: d2_def delete_without_match)
  have delete: "delete_pages d2 user i = (d3, \<lparr>status = 204, body = NoBody\<rparr>)"
    using m2 del by (simp add: delete_pages_def delete_page_def Let_def d3_def u_def [symmetric])
  have l1: "rows_with i (map (\<lambda>p. (p_id p, p_title p, p_content p))
              (filter (\<lambda>p. p_userId p = jwt_id user) (pages d1))) = [(i, T, Some C)]"
    using m1 by (simp add: rows_with_select u_def [symmetric]) (simp add: new_def)
  have l2: "rows_with i (map (\<lambda>p. (p_id p, p_title p, p_content p))
              (filter (\<lambda>p. p_userId p = jwt_id user) (pages d2))) = [(i, T2, Some C2)]"
    using m2 by (simp add: rows_with_select u_def [symmetric]) (simp add: new2_def)
  have l3: "rows_with i (map (\<lambda>p. (p_id p, p_title p, p_content p))
              (filter (\<lambda>p. p_userId p = jwt_id user) (pages d3))) = []"
    using m3 by (simp add: rows_with_select u_def [symmetric])
  show ?thesis
    using create update delete l1 l2 l3 get_pages_rows by blast
qed



theorem crud_round_trip_witness:
  "''T'' \<noteq> [] \<and> ''T2'' \<noteq> [] \<and>
   snd (post_pages alice_db alice_user \<lparr>title = Some ''T'', content = Some ''C''\<rparr>)
     = json 201 (PageCreated 2 ''T'' (Some ''C'') 1) \<and>
   (\<exists>d1 i l1 d2 l2 d3 l3.
     post_pages alice_db alice_user \<lparr>title = Some ''T'', content = Some ''C''\<rparr>
       = (d1, json 201 (PageCreated i ''T'' (Some ''C'') (jwt_id alice_user))) \<and>
     get_pages d1 alice_user = (d1, json 200 (PageRows l1)) \<and>
     rows_with i l1 = [(i, ''T'', Some ''C'')] \<and>
     put_pages d1 alice_user i \<lparr>title = Some ''T2'', content = Some ''C2''\<rparr>
       = (d2, json 200 (Message ''Page updated successfully.'')) \<and>
     get_pages d2 alice_user = (d2, json 200 (PageRows l2)) \<and>
     rows_with i l2 = [(i, ''T2'', Some ''C2'')] \<and>
     delete_pages d2 alice_user i = (d3, \<lparr>status = 204, body = NoBody\<rparr>) \<and>
     get_pages d3 alice_user = (d3, json 200 (PageRows l3)) \<and> rows_with i l3 = [])"
proof -
  have a: "''T'' \<noteq> []" and b: "''T2'' \<noteq> []" by simp_all
  have c: "snd (post_pages alice_db alice_user \<lparr>title = Some ''T'', content = Some ''C''\<rparr>)
     = json 201 (PageCreated 2 ''T'' (Some ''C'') 1)"
    by (simp add: post_pages_def truthy_def insert_page_def or_else_def next_rowid_def
        alice_db_def alice_user_def)
  show ?thesis
    using crud_round_trip [OF a b, of alice_db alice_user "''C''" "''C2''"] a b c by blast
qed

text \<open>
  Claim C10. An update always overwrites both fields. When the owner of a page updates
  it with a non-empty title and a body without \<^verbatim>\<open>content\<close>, the request is answered 200,
  the stored row keeps its id and owner and takes the new title and a \<^verbatim>\<open>NULL\<close> content,
  whatever its content was, and the listing shows the page with that absent content.
\<close>

theorem update_overwrites_content:
  assumes "wf_db d" and "p \<in> set (pages d)" and "p_userId p = jwt_id user"
    and "title req = Some t" and "t \<noteq> []" and "content req = None"
  shows "\<exists>d' rows.
     put_pages d user (p_id p) req = (d', json 200 (Message ''Page updated successfully.'')) \<and>
     filter (matches (p_id p) (jwt_id user)) (pages d') = [p\<lparr>p_title := t, p_content := None\<rparr>] \<and>
     get_pages d' user = (d', json 200 (PageRows rows)) \<and>
     rows_with (p_id p) rows = [(p_id p, t, None)]"
proof -
  define i where "i = p_id p"
  define u where "u = jwt_id user"
  define d' where "d' = d\<lparr>pages := map (\<lambda>q. if matches i u q
      then q\<lparr>p_title := t, p_content := None\<rparr> else q) (pages d)\<rparr>"
  have m: "filter (matches i u) (pages d) = [p]"
    using only_match [of "pages d" p] assms(1-3) by (simp add: wf_db_def i_def u_def)
  have put: "put_pages d user (p_id p) req = (d', json 200 (Message ''Page updated successfully.''))"
    using assms(4-6) m
    by (simp add: put_pages_def truthy_def update_page_def Let_def d'_def i_def [symmetric]
        u_def [symmetric])
  have m': "filter (matches i u) (pages d') = [p\<lparr>p_title := t, p_content := None\<rparr>]"
    using m by (simp add: d'_def filter_matches_update)
  have rows: "rows_with i (map (\<lambda>p. (p_id p, p_title p, p_content p))
              (filter (\<lambda>p. p_userId p = jwt_id user) (pages d'))) = [(i, t, None)]"
    using m' by (simp add: rows_with_select u_def [symmetric]) (simp add: i_def)
  show ?thesis
    using put m' rows get_pages_rows [of d' user] unfolding i_def u_def by blast
qed

theorem update_overwrites_content_witness:
  "wf_db alice_db \<and>
   \<lparr>p_id = 1, p_title = ''Hi'', p_content = Some ''<p>old</p>'', p_userId = 1\<rparr> \<in> set (pages alice_db) \<and>
   jwt_id alice_user = 1 \<and>
   pages (fst (put_pages alice_db alice_user 1 \<lparr>title = Some ''New'', content = None\<rparr>))
     = [\<lparr>p_id = 1, p_title = ''New'', p_content = None, p_userId = 1\<rparr>] \<and>
   (\<exists>d' rows.
     put_pages alice_db alice_user 1 \<lparr>title = Some ''New'', content = None\<rparr>
       = (d', json 200 (Message ''Page updated successfully.'')) \<and>
     get_pages d' alice_user = (d', json 200 (PageRows rows)) \<and>
     rows_with 1 rows = [(1, ''New'', None)])"
proof -
  let ?p = "\<lparr>p_id = 1, p_title = ''Hi'', p_content = Some ''<p>old</p>'', p_userId = 1\<rparr>"
  let ?req = "\<lparr>title = Some ''New'', content = None\<rparr>"
  have w: "wf_db alice_db" by (simp add: wf_db_def alice_db_def)
  have m: "?p \<in> set (pages alice_db)" by (simp add: alice_db_def)
  have o: "p_userId ?p = jwt_id alice_user" by (simp add: alice_user_def)
  have t: "title ?req = Some ''New''" "''New'' \<noteq> []" "content ?req = None" by simp_all
  have e: "pages (fst (put_pages alice_db alice_user 1 ?req))
     = [\<lparr>p_id = 1, p_title = ''New'', p_content = None, p_userId = 1\<rparr>]"
    by (simp add: put_pages_def truthy_def update_page_def matches_def alice_db_def alice_user_def)
  have i: "jwt_id alice_user = 1" by (simp add: alice_user_def)
  from update_overwrites_content [OF w m o t]
  have "\<exists>d' rows.
     put_pages alice_db alice_user 1 ?req = (d', json 200 (Message ''Page updated successfully.'')) \<and>
     get_pages d' alice_user = (d', json 200 (PageRows rows)) \<and>
     rows_with 1 rows = [(1, ''New'', None)]"
    by auto
  then show ?thesis using w m i e by blast
qed

text \<open>
  Claim C7, as the code has it. A create request whose title is missing or empty is
  answered 400 and the database is left as it was. Otherwise it is answered 201 with
  the new id, the title, the owner's id, and the content exactly as the request gave
  it (absent when the request had none); the page is stored under an id no stored page
  has, for the authenticated identity, and it is the stored content that defaults to the
  empty string.
\<close>

theorem create_page_result:
  "(\<not> truthy (title req) \<longrightarrow>
      post_pages d user req = (d, json 400 (Message ''Title is required.''))) \<and>
   (title req = Some t \<and> t \<noteq> [] \<longrightarrow>
      (\<exists>d' i. post_pages d user req = (d', json 201 (PageCreated i t (content req) (jwt_id user))) \<and>
         i \<notin> set (map p_id (pages d)) \<and>
         pages d' = pages d @
           [\<lparr>p_id = i, p_title = t,
             p_content = Some (case content req of None \<Rightarrow> [] | Some c \<Rightarrow> c),
             p_userId = jwt_id user\<rparr>]))"
proof -
  have c: "or_else (content req) [] = (case content req of None \<Rightarrow> [] | Some c \<Rightarrow> c)"
    by (simp add: or_else_def split: option.splits)
  show ?thesis
    using next_rowid_fresh [of "pages_seq d" "map p_id (pages d)"]
    by (auto simp: post_pages_def truthy_def insert_page_def Let_def c)
qed

theorem create_page_result_witness:
  "\<not> truthy (title \<lparr>title = Some [], content = Some ''C''\<rparr>) \<and>
   post_pages alice_db alice_user \<lparr>title = Some [], content = Some ''C''\<rparr>
     = (alice_db, json 400 (Message ''Title is required.'')) \<and>
   snd (post_pages alice_db alice_user \<lparr>title = Some ''Hi'', content = None\<rparr>)
     = json 201 (PageCreated 2 ''Hi'' None 1) \<and>
   pages (fst (post_pages alice_db alice_user \<lparr>title = Some ''Hi'', content = None\<rparr>))
     = pages alice_db @ [\<lparr>p_id = 2, p_title = ''Hi'', p_content = Some [], p_userId = 1\<rparr>]"
proof -
  have a: "\<not> truthy (title \<lparr>title = Some [], content = Some ''C''\<rparr>)" by (simp add: truthy_def)
  have b: "post_pages alice_db alice_user \<lparr>title = Some [], content = Some ''C''\<rparr>
     = (alice_db, json 400 (Message ''Title is required.''))"
    using create_page_result [of "\<lparr>title = Some [], content = Some ''C''\<rparr>" alice_db alice_user] a
    by simp
  have n: "next_rowid (pages_seq alice_db) (map p_id (pages alice_db)) = 2"
    by (simp add: next_rowid_def alice_db_def)
  have c: "snd (post_pages alice_db alice_user \<lparr>title = Some ''Hi'', content = None\<rparr>)
     = json 201 (PageCreated 2 ''Hi'' None 1)"
    using create_page_result [of "\<lparr>title = Some ''Hi'', content = None\<rparr>" alice_db alice_user "''Hi''"]
    by (auto simp: alice_user_def post_pages_def truthy_def insert_page_def Let_def n)
  have d: "pages (fst (post_pages alice_db alice_user \<lparr>title = Some ''Hi'', content = None\<rparr>))
     = pages alice_db @ [\<lparr>p_id = 2, p_title = ''Hi'', p_content = Some [], p_userId = 1\<rparr>]"
    by (simp add: alice_user_def post_pages_def truthy_def insert_page_def Let_def n or_else_def)
  show ?thesis using a b c d by simp
qed

text \<open>
  A create request without content: the stored content is the empty string, the content
  of the answer is absent, not the empty string.
\<close>

theorem create_response_content_counterexample:
  "snd (post_pages empty_db alice_user \<lparr>title = Some ''Hi'', content = None\<rparr>)
     = json 201 (PageCreated 1 ''Hi'' None 1) \<and>
   snd (post_pages empty_db alice_user \<lparr>title = Some ''Hi'', content = None\<rparr>)
     \<noteq> json 201 (PageCreated 1 ''Hi'' (Some []) 1) \<and>
   pages (fst (post_pages empty_db alice_user \<lparr>title = Some ''Hi'', content = None\<rparr>))
     = [\<lparr>p_id = 1, p_title = ''Hi'', p_content = Some [], p_userId = 1\<rparr>]"
  by (simp add: post_pages_def truthy_def insert_page_def or_else_def next_rowid_def
      empty_db_def alice_user_def json_def)

section \<open>Accounts\<close>

lemma users_get_pages: "users (fst (get_pages d user)) = users d"
  by (simp add: get_pages_def select_pages_def)

lemma users_post_pages: "users (fst (post_pages d user b)) = users d"
  by (simp add: post_pages_def insert_page_def Let_def split: option.splits)

lemma users_put_pages: "users (fst (put_pages d user i b)) = users d"
  by (simp add: put_pages_def update_page_def Let_def split: option.splits)

lemma users_delete_pages: "users (fst (delete_pages d user i)) = users d"
  by (simp add: delete_pages_def delete_page_def Let_def)

lemma users_protected:
  "(\<And>user. users (fst (handler user)) = users d) \<Longrightarrow>
   users (fst (protected verify a d handler)) = users d"
  by (simp add: protected_def split: guard_result.splits)

lemma users_post_register: "set (users d) \<subseteq> set (users (fst (post_register h d b)))"
  by (auto simp: post_register_def insert_user_def Let_def split: option.splits)

lemma users_handle: "set (users d) \<subseteq> set (users (fst (handle e d r)))"
  by (cases r)
    (simp_all add: users_post_register users_protected users_get_pages users_post_pages
      users_put_pages users_delete_pages)

lemma users_serve: "set (users d) \<subseteq> set (users (serve d rs))"
proof (induction rs arbitrary: d)
  case Nil
  then show ?case by simp
next
  case (Cons a rs)
  obtain e r where a: "a = (e, r)" by (cases a)
  show ?case using users_handle [of d e r] Cons.IH [of "fst (handle e d r)"] by (auto simp: a)
qed

lemma registered_after_success:
  assumes "post_register h d \<lparr>email = Some e, password = Some p\<rparr> = (d', r)" and "status r = 201"
  shows "e \<in> set (map u_email (users d'))"
  using assms
  by (auto simp: post_register_def insert_user_def Let_def json_def
      split: option.splits if_splits)

text \<open>
  Claim C5. Once a registration of an email has succeeded, every later registration of
  that email, with whatever non-empty password and after whatever other requests the
  server has answered in between, is answered 409 \<^verbatim>\<open>Email already in use.\<close> and leaves the
  database as it was: the constraint error of the insert is answered as the domain
  error and not as a 500. (The second password is hashed before the insert; the
  hashing is taken to succeed.)
\<close>

theorem duplicate_email_rejected:
  assumes "post_register hash1 d \<lparr>email = Some e, password = Some p1\<rparr> = (d1, r1)"
    and "status r1 = 201"
    and "p2 \<noteq> []" and "hash2 p2 10 = Some h2"
  shows "post_register hash2 (serve d1 rs) \<lparr>email = Some e, password = Some p2\<rparr>
           = (serve d1 rs, json 409 (Message ''Email already in use.''))"
proof -
  have "e \<in> set (map u_email (users d1))"
    using assms(1,2) by (rule registered_after_success)
  then have in_use: "e \<in> set (map u_email (users (serve d1 rs)))"
    using users_serve [of d1 rs] by auto
  have "e \<noteq> []"
    using assms(1,2) by (auto simp: post_register_def truthy_def json_def split: if_splits)
  then show ?thesis
    using assms(3,4) in_use by (simp add: post_register_def truthy_def insert_user_def)
qed

theorem duplicate_email_rejected_witness:
  "post_register demo_hash empty_db \<lparr>email = Some ''alice@example.com'', password = Some ''pw1''\<rparr>
     = (\<lparr>users = [\<lparr>u_id = 1, u_email = ''alice@example.com'', u_password = ''#pw1''\<rparr>],
         users_seq = 1, pages = [], pages_seq = 0\<rparr>,
        json 201 (UserCreated ''User created successfully.'' 1)) \<and>
   ''other'' \<noteq> [] \<and> demo_hash ''other'' 10 = Some ''#other'' \<and>
   post_register demo_hash
       \<lparr>users = [\<lparr>u_id = 1, u_email = ''alice@example.com'', u_password = ''#pw1''\<rparr>],
         users_seq = 1, pages = [], pages_seq = 0\<rparr>
       \<lparr>email = Some ''alice@example.com'', password = Some ''other''\<rparr>
     = (\<lparr>users = [\<lparr>u_id = 1, u_email = ''alice@example.com'', u_password = ''#pw1''\<rparr>],
         users_seq = 1, pages = [], pages_seq = 0\<rparr>,
        json 409 (Message ''Email already in use.''))"
proof -
  let ?d1 = "\<lparr>users = [\<lparr>u_id = 1, u_email = ''alice@example.com'', u_password = ''#pw1''\<rparr>],
         users_seq = 1, pages = [], pages_seq = 0\<rparr>"
  have a: "post_register demo_hash empty_db
      \<lparr>email = Some ''alice@example.com'', password = Some ''pw1''\<rparr>
     = (?d1, json 201 (UserCreated ''User created successfully.'' 1))"
    by (simp add: post_register_def truthy_def demo_hash_def insert_user_def next_rowid_def
        empty_db_def)
  have b: "status (json 201 (UserCreated ''User created successfully.'' 1)) = 201"
    by (simp add: json_def)
  have c: "''other'' \<noteq> []" by simp
  have d: "demo_hash ''other'' 10 = Some ''#other''" by (simp add: demo_hash_def)
  show ?thesis
    using duplicate_email_rejected [where ?hash1.0 = demo_hash and ?hash2.0 = demo_hash
        and ?p2.0 = "''other''" and rs = "[]", OF a b c d] a c d by simp
qed

lemma find_registered:
  "distinct (map u_email us) \<Longrightarrow> u \<in> set us \<Longrightarrow> find (\<lambda>x. u_email x = u_email u) us = Some u"
  by (induction us) force+

lemma find_unregistered:
  "e \<notin> set (map u_email us) \<Longrightarrow> find (\<lambda>x. u_email x = e) us = None"
  by (induction us) auto

text \<open>
  Claim C2. In the same database, a login with an email no account has and a login with
  the email of an account and a password that \<^verbatim>\<open>bcrypt.compare\<close> rejects get the same
  answer, field for field: status 401 and the message \<^verbatim>\<open>Invalid credentials.\<close>
  Both requests carry a non-empty email and password, as the route requires first.
\<close>

theorem login_failures_indistinguishable:
  assumes "wf_db d"
    and "e1 \<noteq> []" and "pw1 \<noteq> []" and "e1 \<notin> set (map u_email (users d))"
    and "u \<in> set (users d)" and "u_email u \<noteq> []" and "pw2 \<noteq> []"
    and "\<not> cmp pw2 (u_password u)"
  shows "post_login cmp sign d \<lparr>email = Some e1, password = Some pw1\<rparr>
           = json 401 (Message ''Invalid credentials.'') \<and>
         post_login cmp sign d \<lparr>email = Some (u_email u), password = Some pw2\<rparr>
           = json 401 (Message ''Invalid credentials.'')"
proof -
  have "find (\<lambda>x. u_email x = u_email u) (users d) = Some u"
    using assms(1,5) by (simp add: wf_db_def find_registered)
  then have wrong: "post_login cmp sign d \<lparr>email = Some (u_email u), password = Some pw2\<rparr>
           = json 401 (Message ''Invalid credentials.'')"
    using assms(6-8) by (simp add: post_login_def truthy_def select_user_def)
  have "find (\<lambda>x. u_email x = e1) (users d) = None"
    using assms(4) by (rule find_unregistered)
  then have unknown: "post_login cmp sign d \<lparr>email = Some e1, password = Some pw1\<rparr>
           = json 401 (Message ''Invalid credentials.'')"
    using assms(2,3) by (simp add: post_login_def truthy_def select_user_def)
  show ?thesis using wrong unknown by simp
qed

theorem login_failures_indistinguishable_witness:
  "wf_db alice_db \<and> ''carol@example.com'' \<notin> set (map u_email (users alice_db)) \<and>
   \<lparr>u_id = 1, u_email = ''alice@example.com'', u_password = ''#pw1''\<rparr> \<in> set (users alice_db) \<and>
   \<not> demo_compare ''guess'' ''#pw1'' \<and>
   post_login demo_compare (sign_at demo_encode 0) alice_db
       \<lparr>email = Some ''carol@example.com'', password = Some ''pw3''\<rparr>
     = json 401 (Message ''Invalid credentials.'') \<and>
   post_login demo_compare (sign_at demo_encode 0) alice_db
       \<lparr>email = Some ''alice@example.com'', password = Some ''guess''\<rparr>
     = json 401 (Message ''Invalid credentials.'')"
proof -
  let ?u = "\<lparr>u_id = 1, u_email = ''alice@example.com'', u_password = ''#pw1''\<rparr>"
  have w: "wf_db alice_db" by (simp add: wf_db_def alice_db_def)
  have e: "''carol@example.com'' \<noteq> []" and p: "''pw3'' \<noteq> []" and g: "''guess'' \<noteq> []"
    by simp_all
  have n: "''carol@example.com'' \<notin> set (map u_email (users alice_db))"
    by (simp add: alice_db_def)
  have m: "?u \<in> set (users alice_db)" by (simp add: alice_db_def)
  have ne: "u_email ?u \<noteq> []" by simp
  have c: "\<not> demo_compare ''guess'' (u_password ?u)" by (simp add: demo_compare_def)
  show ?thesis
    using login_failures_indistinguishable [where cmp = demo_compare
        and sign = "sign_at demo_encode 0" and ?pw2.0 = "''guess''", OF w e p n m ne g c] w n m c
    by simp
qed

section \<open>Issued tokens\<close>

lemma login_success:
  assumes "wf_db d" and "P \<in> set (users d)" and "u_email P \<noteq> []" and "pw \<noteq> []"
    and "cmp pw (u_password P)"
  shows "post_login cmp sign d \<lparr>email = Some (u_email P), password = Some pw\<rparr>
           = json 200 (AccessToken (sign \<lparr>jwt_id = u_id P, jwt_email = u_email P\<rparr> JWT_SECRET 3600))"
proof -
  have "find (\<lambda>x. u_email x = u_email P) (users d) = Some P"
    using assms(1,2) by (simp add: wf_db_def find_registered)
  then show ?thesis
    using assms(3-5) by (simp add: post_login_def truthy_def select_user_def)
qed

lemma bearer_header_token:
  "CHR '' '' \<notin> set tok \<Longrightarrow> bearer_token (Some (''Bearer '' @ tok)) = Some tok"
  using second_piece_scheme [of "''Bearer''" tok] bearer_token_space [of "''Bearer '' @ tok"]
  by simp

text \<open>The wire format reads back what it wrote, and writes no space.\<close>

lemma dec_enc_nat: "dec_nat (enc_nat n @ rest) = Some (n, rest)"
proof (induction n rule: enc_nat.induct)
  case (1 n)
  show ?case
  proof (cases "n = 0")
    case True
    then show ?thesis by (simp add: enc_nat.simps)
  next
    case False
    then have "dec_nat (enc_nat (n div 2) @ rest) = Some (n div 2, rest)" using 1 by simp
    then show ?thesis using False by (subst enc_nat.simps) auto
  qed
qed

lemma dec_enc_int: "dec_int (enc_int i @ rest) = Some (i, rest)"
  by (simp add: dec_int_def enc_int_def dec_enc_nat)

lemma dec_enc_str: "dec_str (enc_str s @ rest) = Some (s, rest)"
proof (induction s)
  case Nil
  then show ?case by (cases rest) simp_all
next
  case (Cons c s)
  then show ?case by simp
qed

lemma enc_nat_no_space: "CHR '' '' \<notin> set (enc_nat n)"
proof (induction n rule: enc_nat.induct)
  case (1 n)
  then show ?case by (subst enc_nat.simps) auto
qed

lemma enc_str_no_space: "CHR '' '' \<notin> set (enc_str s)"
  by (induction s) auto

lemma wire_round_trip: "wire_decode (wire_encode t) = Some t"
proof -
  have "dec_str (enc_str (jwt_key t)) = Some (jwt_key t, [])"
    using dec_enc_str [of "jwt_key t" "[]"] by simp
  then show ?thesis
    by (simp add: wire_decode_def wire_encode_def dec_enc_int dec_enc_str dec_enc_nat)
qed

lemma wire_no_space: "CHR '' '' \<notin> set (wire_encode t)"
  by (simp add: wire_encode_def enc_int_def enc_nat_no_space enc_str_no_space)

text \<open>
  Claim C4. With any wire format that reads back every token it writes and writes no
  space: a login of principal \<open>P\<close> at time \<open>t0\<close> is answered with a token such that,
  presented as \<^verbatim>\<open>Bearer <token>\<close> at any time after \<open>t0 + 3600\<close>, the middleware answers
  403, and presented at any time before \<open>t0 + 3600\<close>, the middleware lets the request
  through with \<open>P\<close>'s id and email, the issuance time \<open>t0\<close> and the expiry
  \<open>t0 + 3600\<close>.
\<close>

theorem issued_token_lifetime:
  assumes "wf_db d" and "P \<in> set (users d)" and "u_email P \<noteq> []" and "pw \<noteq> []"
    and "cmp pw (u_password P)"
    and "\<And>t. decode (encode t) = Some t"
    and "\<And>t. CHR '' '' \<notin> set (encode t)"
  shows "\<exists>tok.
           post_login cmp (sign_at encode t0) d \<lparr>email = Some (u_email P), password = Some pw\<rparr>
             = json 200 (AccessToken tok) \<and>
           (t0 + 3600 < now \<longrightarrow>
              authenticateToken (verify_at decode now) (Some (''Bearer '' @ tok))
                = Respond (sendStatus 403)) \<and>
           (now < t0 + 3600 \<longrightarrow>
              authenticateToken (verify_at decode now) (Some (''Bearer '' @ tok))
                = Next \<lparr>jwt_id = u_id P, jwt_email = u_email P,
                         jwt_iat = t0, jwt_exp = t0 + 3600\<rparr>)"
proof -
  define tok where
    "tok = sign_at encode t0 \<lparr>jwt_id = u_id P, jwt_email = u_email P\<rparr> JWT_SECRET 3600"
  have login: "post_login cmp (sign_at encode t0) d \<lparr>email = Some (u_email P), password = Some pw\<rparr>
           = json 200 (AccessToken tok)"
    using login_success [where cmp = cmp and pw = pw, OF assms(1-5)] by (simp add: tok_def)
  have "CHR '' '' \<notin> set tok"
    using assms(7) by (simp add: tok_def sign_at_def)
  then have tok: "bearer_token (Some (''Bearer '' @ tok)) = Some tok"
    by (rule bearer_header_token)
  have dec: "decode tok
      = Some (issue t0 \<lparr>jwt_id = u_id P, jwt_email = u_email P\<rparr> JWT_SECRET 3600)"
    using assms(6) by (simp add: tok_def sign_at_def)
  have late: "verify_at decode now tok JWT_SECRET = Inl TokenExpiredError" if "t0 + 3600 < now"
    using that dec by (simp add: verify_at_def check_def issue_def)
  have early: "verify_at decode now tok JWT_SECRET
      = Inr \<lparr>jwt_id = u_id P, jwt_email = u_email P, jwt_iat = t0, jwt_exp = t0 + 3600\<rparr>"
    if "now < t0 + 3600"
    using that dec by (simp add: verify_at_def check_def issue_def)
  have "post_login cmp (sign_at encode t0) d \<lparr>email = Some (u_email P), password = Some pw\<rparr>
             = json 200 (AccessToken tok) \<and>
           (t0 + 3600 < now \<longrightarrow>
              authenticateToken (verify_at decode now) (Some (''Bearer '' @ tok))
                = Respond (sendStatus 403)) \<and>
           (now < t0 + 3600 \<longrightarrow>
              authenticateToken (verify_at decode now) (Some (''Bearer '' @ tok))
                = Next \<lparr>jwt_id = u_id P, jwt_email = u_email P,
                         jwt_iat = t0, jwt_exp = t0 + 3600\<rparr>)"
    using login tok late early by (simp add: authenticateToken_def)
  then show ?thesis by blast
qed

theorem issued_token_lifetime_witness:
  "wf_db alice_db \<and>
   \<lparr>u_id = 1, u_email = ''alice@example.com'', u_password = ''#pw1''\<rparr> \<in> set (users alice_db) \<and>
   \<lparr>u_id = 2, u_email = ''bob@example.com'', u_password = ''#pw2''\<rparr> \<in> set (users alice_db) \<and>
   demo_compare ''pw1'' ''#pw1'' \<and> demo_compare ''pw2'' ''#pw2'' \<and>
   (\<forall>t. wire_decode (wire_encode t) = Some t) \<and>
   (\<forall>t. CHR '' '' \<notin> set (wire_encode t)) \<and>
   (\<exists>tokA tokB.
      post_login demo_compare (sign_at wire_encode 0) alice_db
          \<lparr>email = Some ''alice@example.com'', password = Some ''pw1''\<rparr>
        = json 200 (AccessToken tokA) \<and>
      (0::nat) + 3600 < 3601 \<and>
      authenticateToken (verify_at wire_decode 3601) (Some (''Bearer '' @ tokA))
        = Respond (sendStatus 403) \<and>
      (3599::nat) < 0 + 3600 \<and>
      authenticateToken (verify_at wire_decode 3599) (Some (''Bearer '' @ tokA))
        = Next alice_user \<and>
      post_login demo_compare (sign_at wire_encode 0) alice_db
          \<lparr>email = Some ''bob@example.com'', password = Some ''pw2''\<rparr>
        = json 200 (AccessToken tokB) \<and>
      authenticateToken (verify_at wire_decode 3599) (Some (''Bearer '' @ tokB))
        = Next bob_user)"
proof -
  let ?A = "\<lparr>u_id = 1, u_email = ''alice@example.com'', u_password = ''#pw1''\<rparr>"
  let ?B = "\<lparr>u_id = 2, u_email = ''bob@example.com'', u_password = ''#pw2''\<rparr>"
  have w: "wf_db alice_db" by (simp add: wf_db_def alice_db_def)
  have ma: "?A \<in> set (users alice_db)" and mb: "?B \<in> set (users alice_db)"
    by (simp_all add: alice_db_def)
  have ea: "u_email ?A \<noteq> []" and eb: "u_email ?B \<noteq> []"
    and pa: "''pw1'' \<noteq> []" and pb: "''pw2'' \<noteq> []" by simp_all
  have ca: "demo_compare ''pw1'' (u_password ?A)" and cb: "demo_compare ''pw2'' (u_password ?B)"
    by (simp_all add: demo_compare_def)
  note a = issued_token_lifetime [where cmp = demo_compare and encode = wire_encode
      and decode = wire_decode and pw = "''pw1''" and ?t0.0 = 0,
      OF w ma ea pa ca wire_round_trip wire_no_space]
  note b = issued_token_lifetime [where cmp = demo_compare and encode = wire_encode
      and decode = wire_decode and pw = "''pw2''" and ?t0.0 = 0,
      OF w mb eb pb cb wire_round_trip wire_no_space]
  from a [of 3601] obtain tokA where
    la: "post_login demo_compare (sign_at wire_encode 0) alice_db
          \<lparr>email = Some ''alice@example.com'', password = Some ''pw1''\<rparr>
        = json 200 (AccessToken tokA)"
    and xa: "authenticateToken (verify_at wire_decode 3601) (Some (''Bearer '' @ tokA))
        = Respond (sendStatus 403)"
    by auto
  from a [of 3599] la have
    va: "authenticateToken (verify_at wire_decode 3599) (Some (''Bearer '' @ tokA))
        = Next alice_user"
    by (auto simp: json_def alice_user_def)
  from b [of 3599] obtain tokB where
    lb: "post_login demo_compare (sign_at wire_encode 0) alice_db
          \<lparr>email = Some ''bob@example.com'', password = Some ''pw2''\<rparr>
        = json 200 (AccessToken tokB)"
    and vb: "authenticateToken (verify_at wire_decode 3599) (Some (''Bearer '' @ tokB))
        = Next bob_user"
    by (auto simp: bob_user_def)
  have "(0::nat) + 3600 < 3601" and "(3599::nat) < 0 + 3600" by simp_all
  then show ?thesis
    using w ma mb ca cb wire_round_trip wire_no_space la xa va lb vb by auto
qed

section \<open>What each request may change\<close>

lemma pages_get_pages: "fst (get_pages d user) = d"
  by (simp add: get_pages_def select_pages_def)

lemma pages_post_register:
  "pages (fst (post_register h d c)) = pages d \<and> pages_seq (fst (post_register h d c)) = pages_seq d"
  by (simp add: post_register_def insert_user_def Let_def split: option.splits)

lemma pages_post_pages:
  "fst (post_pages d user b) = d \<or>
   (\<exists>new. pages (fst (post_pages d user b)) = pages d @ [new] \<and>
      pages_seq (fst (post_pages d user b)) = p_id new \<and>
      users (fst (post_pages d user b)) = users d \<and>
      users_seq (fst (post_pages d user b)) = users_seq d \<and>
      p_userId new = jwt_id user \<and> pages_seq d < p_id new \<and>
      p_id new \<notin> set (map p_id (pages d)))"
  using next_rowid_above_seq [of "pages_seq d" "map p_id (pages d)"]
    next_rowid_fresh [of "pages_seq d" "map p_id (pages d)"]
  by (simp add: post_pages_def insert_page_def Let_def split: option.splits)

lemma created_page:
  assumes "status (snd (post_pages d user b)) = 201"
  shows "\<exists>new. pages (fst (post_pages d user b)) = pages d @ [new] \<and>
      p_userId new = jwt_id user \<and> pages_seq d < p_id new \<and>
      p_id new \<notin> set (map p_id (pages d))"
  using assms next_rowid_above_seq [of "pages_seq d" "map p_id (pages d)"]
    next_rowid_fresh [of "pages_seq d" "map p_id (pages d)"]
  by (simp add: post_pages_def insert_page_def Let_def json_def split: option.splits if_splits)

lemma pages_put_pages:
  "length (pages (fst (put_pages d user i b))) = length (pages d) \<and>
   pages_seq (fst (put_pages d user i b)) = pages_seq d \<and>
   (\<forall>k<length (pages d).
      p_id (pages (fst (put_pages d user i b)) ! k) = p_id (pages d ! k) \<and>
      p_userId (pages (fst (put_pages d user i b)) ! k) = p_userId (pages d ! k) \<and>
      (\<not> matches i (jwt_id user) (pages d ! k) \<longrightarrow>
         pages (fst (put_pages d user i b)) ! k = pages d ! k))"
  by (simp add: put_pages_def update_page_def Let_def split: option.splits)

lemma pages_delete_pages:
  "pages (fst (delete_pages d user i)) = filter (\<lambda>p. \<not> matches i (jwt_id user) p) (pages d) \<and>
   pages_seq (fst (delete_pages d user i)) = pages_seq d"
  by (simp add: delete_pages_def delete_page_def Let_def)

text \<open>
  One request: the counter does not go down, and every page of the new state either has
  the id and the owner of a page of the old state, or an id above the old counter.
\<close>

lemma owner_step_put:
  assumes "q \<in> set (pages (fst (put_pages d user i b)))"
  shows "\<exists>p\<in>set (pages d). p_id p = p_id q \<and> p_userId p = p_userId q"
proof -
  from assms obtain k where k: "k < length (pages (fst (put_pages d user i b)))"
    and q: "q = pages (fst (put_pages d user i b)) ! k"
    by (auto simp: in_set_conv_nth)
  then have "k < length (pages d)" using pages_put_pages [of d user i b] by simp
  then show ?thesis
    using pages_put_pages [of d user i b] q by (metis nth_mem)
qed

lemma owner_step_handler:
  assumes "d' = fst (get_pages d user) \<or> d' = fst (post_pages d user b) \<or>
           d' = fst (put_pages d user i b) \<or> d' = fst (delete_pages d user i) \<or> d' = d"
  shows "pages_seq d \<le> pages_seq d' \<and>
         (\<forall>q\<in>set (pages d').
            (\<exists>p\<in>set (pages d). p_id p = p_id q \<and> p_userId p = p_userId q) \<or> pages_seq d < p_id q)"
proof -
  have get: ?thesis if "d' = d" using that by auto
  have post: ?thesis if "d' = fst (post_pages d user b)"
    using pages_post_pages [of d user b] that by (elim disjE exE) (auto intro: get)
  have put: ?thesis if "d' = fst (put_pages d user i b)"
    using pages_put_pages [of d user i b] owner_step_put [of _ d user i b] that by auto
  have del: ?thesis if "d' = fst (delete_pages d user i)"
    using pages_delete_pages [of d user i] that by auto
  show ?thesis using assms get post put del pages_get_pages [of d user] by metis
qed

lemma owner_step:
  "pages_seq d \<le> pages_seq (fst (handle e d r)) \<and>
   (\<forall>q\<in>set (pages (fst (handle e d r))).
      (\<exists>p\<in>set (pages d). p_id p = p_id q \<and> p_userId p = p_userId q) \<or> pages_seq d < p_id q)"
proof (cases r)
  case (PostRegister c)
  then show ?thesis using pages_post_register [of "bcrypt_hash e" d c] by auto
next
  case (PostLogin c)
  then show ?thesis by auto
next
  case (GetPages a)
  then show ?thesis
    using owner_step_handler [of "fst (handle e d r)" d]
    by (auto simp: protected_def pages_get_pages split: guard_result.splits)
next
  case (PostPages a b)
  then have "fst (handle e d r) = d \<or> (\<exists>user. fst (handle e d r) = fst (post_pages d user b))"
    by (auto simp: protected_def split: guard_result.splits)
  then show ?thesis using owner_step_handler [of "fst (handle e d r)" d] by metis
next
  case (PutPages a i b)
  then have "fst (handle e d r) = d \<or> (\<exists>user. fst (handle e d r) = fst (put_pages d user i b))"
    by (auto simp: protected_def split: guard_result.splits)
  then show ?thesis using owner_step_handler [of "fst (handle e d r)" d] by metis
next
  case (DeletePages a i)
  then have "fst (handle e d r) = d \<or> (\<exists>user. fst (handle e d r) = fst (delete_pages d user i))"
    by (auto simp: protected_def split: guard_result.splits)
  then show ?thesis using owner_step_handler [of "fst (handle e d r)" d] by metis
qed

lemma owner_serve:
  "pages_seq d \<le> pages_seq (serve d rs) \<and>
   (\<forall>q\<in>set (pages (serve d rs)).
      (\<exists>p\<in>set (pages d). p_id p = p_id q \<and> p_userId p = p_userId q) \<or> pages_seq d < p_id q)"
proof (induction rs arbitrary: d)
  case Nil
  then show ?case by auto
next
  case (Cons a rs)
  obtain e r where a: "a = (e, r)" by (cases a)
  define d1 where "d1 = fst (handle e d r)"
  have s: "serve d (a # rs) = serve d1 rs" by (simp add: a d1_def)
  have step: "pages_seq d \<le> pages_seq d1"
    "\<And>q. q \<in> set (pages d1) \<Longrightarrow>
      (\<exists>p\<in>set (pages d). p_id p = p_id q \<and> p_userId p = p_userId q) \<or> pages_seq d < p_id q"
    using owner_step [of d e r] by (auto simp: d1_def)
  have rest: "pages_seq d1 \<le> pages_seq (serve d1 rs)"
    "\<And>q. q \<in> set (pages (serve d1 rs)) \<Longrightarrow>
      (\<exists>p\<in>set (pages d1). p_id p = p_id q \<and> p_userId p = p_userId q) \<or> pages_seq d1 < p_id q"
    using Cons.IH [of d1] by auto
  have "(\<exists>p\<in>set (pages d). p_id p = p_id q \<and> p_userId p = p_userId q) \<or> pages_seq d < p_id q"
    if "q \<in> set (pages (serve d1 rs))" for q
  proof -
    from rest(2) [OF that] show ?thesis
    proof
      assume "\<exists>p\<in>set (pages d1). p_id p = p_id q \<and> p_userId p = p_userId q"
      then obtain p1 where "p1 \<in> set (pages d1)" "p_id p1 = p_id q" "p_userId p1 = p_userId q"
        by blast
      then show ?thesis using step(2) [of p1] by auto
    next
      assume "pages_seq d1 < p_id q"
      then show ?thesis using step(1) by simp
    qed
  qed
  then show ?case using step(1) rest(1) unfolding s by auto
qed


lemma created_through_guard:
  assumes "status (snd (handle e d (PostPages a b))) = 201"
  shows "\<exists>user new. authenticateToken (jwt_verify e) a = Next user \<and>
      pages (fst (handle e d (PostPages a b))) = pages d @ [new] \<and>
      p_userId new = jwt_id user \<and> pages_seq d < p_id new \<and>
      p_id new \<notin> set (map p_id (pages d))"
proof (cases "authenticateToken (jwt_verify e) a")
  case (Respond r)
  then have "r = sendStatus 401 \<or> r = sendStatus 403"
    by (auto simp: authenticateToken_def split: option.splits sum.splits)
  then show ?thesis using assms Respond by (auto simp: protected_def sendStatus_def)
next
  case (Next user)
  then show ?thesis using assms created_page [of d user b] by (simp add: protected_def)
qed

section \<open>Well-formedness is kept\<close>

lemma wf_db_empty: "wf_db empty_db"
  by (simp add: wf_db_def empty_db_def)

lemma wf_db_post_register: "wf_db d \<Longrightarrow> wf_db (fst (post_register h d c))"
proof -
  assume w: "wf_db d"
  define i where "i = next_rowid (users_seq d) (map u_id (users d))"
  have "u_id u < i" if "u \<in> set (users d)" for u
    using that next_rowid_above [of "u_id u" "map u_id (users d)" "users_seq d"] by (simp add: i_def)
  moreover have "users_seq d < i" by (simp add: i_def next_rowid_above_seq)
  ultimately have "wf_db (d\<lparr>users := users d @ [\<lparr>u_id = i, u_email = e, u_password = p\<rparr>],
      users_seq := i\<rparr>)" if "e \<notin> set (map u_email (users d))" for e p
    using w that by (fastforce simp: wf_db_def list_all_iff)
  then show ?thesis
    using w
    by (auto simp: post_register_def insert_user_def Let_def i_def split: option.splits)
qed

lemma wf_db_post_pages: "wf_db d \<Longrightarrow> wf_db (fst (post_pages d user b))"
proof -
  assume w: "wf_db d"
  from pages_post_pages [of d user b] show ?thesis
  proof (elim disjE exE conjE)
    assume "fst (post_pages d user b) = d"
    then show ?thesis using w by simp
  next
    fix new
    assume "pages (fst (post_pages d user b)) = pages d @ [new]"
      "pages_seq (fst (post_pages d user b)) = p_id new"
      "users (fst (post_pages d user b)) = users d"
      "users_seq (fst (post_pages d user b)) = users_seq d"
      "pages_seq d < p_id new" "p_id new \<notin> set (map p_id (pages d))"
    then show ?thesis using w by (fastforce simp: wf_db_def list_all_iff)
  qed
qed

lemma wf_db_put_pages: "wf_db d \<Longrightarrow> wf_db (fst (put_pages d user i b))"
proof -
  assume w: "wf_db d"
  have ids: "p_id \<circ> (\<lambda>p. if matches i u p then p\<lparr>p_title := t, p_content := c\<rparr> else p) = p_id"
    for u t c
    by (auto simp: fun_eq_iff)
  show ?thesis
    using w
    by (auto simp: put_pages_def update_page_def Let_def wf_db_def ids list_all_iff
        split: option.splits)
qed

lemma wf_db_delete_pages: "wf_db d \<Longrightarrow> wf_db (fst (delete_pages d user i))"
  by (auto simp: delete_pages_def delete_page_def Let_def wf_db_def list_all_iff
      distinct_map_filter)

lemma wf_db_handle: "wf_db d \<Longrightarrow> wf_db (fst (handle e d r))"
  by (cases r)
    (auto simp: protected_def wf_db_post_register wf_db_post_pages wf_db_put_pages
      wf_db_delete_pages pages_get_pages split: guard_result.splits)

lemma wf_db_serve: "wf_db d \<Longrightarrow> wf_db (serve d rs)"
proof (induction rs arbitrary: d)
  case Nil
  then show ?case by simp
next
  case (Cons a rs)
  obtain e r where "a = (e, r)" by (cases a)
  then show ?case using Cons wf_db_handle [of d e r] by simp
qed

text \<open>
  Claim C8. The owner of a page is the authenticated identity that created it and is
  never changed. Over any sequence of requests from a well-formed database, a page that
  is still stored has the owner it had. A create answered 201 went through the
  middleware, and the new page, with an id no page had, is owned by the identity the
  middleware decoded. An update keeps the id and the owner of every page and leaves
  every page not matched by (id, owner) as it was; a delete removes the pages matched by
  (id, owner) and nothing else; listing, registration and login leave the pages as they
  were.
\<close>

theorem owner_never_changes:
  "(wf_db d \<and> p \<in> set (pages d) \<and> q \<in> set (pages (serve d rs)) \<and> p_id q = p_id p \<longrightarrow>
      p_userId q = p_userId p) \<and>
   (status (snd (handle e d (PostPages a b))) = 201 \<longrightarrow>
      (\<exists>user new. authenticateToken (jwt_verify e) a = Next user \<and>
         pages (fst (handle e d (PostPages a b))) = pages d @ [new] \<and>
         p_userId new = jwt_id user \<and> pages_seq d < p_id new \<and>
         p_id new \<notin> set (map p_id (pages d)))) \<and>
   length (pages (fst (put_pages d user i b))) = length (pages d) \<and>
   (\<forall>k<length (pages d).
      p_id (pages (fst (put_pages d user i b)) ! k) = p_id (pages d ! k) \<and>
      p_userId (pages (fst (put_pages d user i b)) ! k) = p_userId (pages d ! k) \<and>
      (\<not> matches i (jwt_id user) (pages d ! k) \<longrightarrow>
         pages (fst (put_pages d user i b)) ! k = pages d ! k)) \<and>
   pages (fst (delete_pages d user i)) = filter (\<lambda>p. \<not> matches i (jwt_id user) p) (pages d) \<and>
   fst (get_pages d user) = d \<and>
   pages (fst (post_register h d c)) = pages d \<and>
   fst (handle e d (PostLogin c)) = d"
proof -
  have fixed: "p_userId q = p_userId p"
    if w: "wf_db d" and pm: "p \<in> set (pages d)" and qm: "q \<in> set (pages (serve d rs))"
      and same: "p_id q = p_id p"
  proof -
    have "p_id p \<le> pages_seq d" using w pm by (auto simp: wf_db_def list_all_iff)
    then have "\<not> pages_seq d < p_id q" using same by simp
    then obtain p' where p': "p' \<in> set (pages d)" "p_id p' = p_id q" "p_userId p' = p_userId q"
      using owner_serve [of d rs] qm by blast
    then have "p' = p"
      using same_id_same_page [of "pages d" p p'] w pm same by (simp add: wf_db_def)
    then show ?thesis using p' by simp
  qed
  show ?thesis
    using fixed created_through_guard [of e d a b] pages_put_pages [of d user i b]
      pages_delete_pages [of d user i] pages_get_pages [of d user] pages_post_register [of h d c]
    by simp
qed


theorem owner_never_changes_witness:
  "wf_db alice_db \<and>
   \<lparr>p_id = 1, p_title = ''Hi'', p_content = Some ''<p>old</p>'', p_userId = 1\<rparr> \<in> set (pages alice_db) \<and>
   pages (serve alice_db
     [(demo_env 10, PutPages (Some ''Bearer tokenA'') 1 \<lparr>title = Some ''New'', content = Some ''x''\<rparr>),
      (demo_env 20, PostPages (Some ''Bearer tokenA'') \<lparr>title = Some ''Two'', content = None\<rparr>)])
     = [\<lparr>p_id = 1, p_title = ''New'', p_content = Some ''x'', p_userId = 1\<rparr>,
        \<lparr>p_id = 2, p_title = ''Two'', p_content = Some [], p_userId = 1\<rparr>] \<and>
   p_userId \<lparr>p_id = 1, p_title = ''New'', p_content = Some ''x'', p_userId = 1\<rparr> = 1 \<and>
   status (snd (handle (demo_env 20) alice_db
     (PostPages (Some ''Bearer tokenA'') \<lparr>title = Some ''Two'', content = None\<rparr>))) = 201 \<and>
   (0::nat) < length (pages alice_db) \<and>
   \<not> matches 1 (jwt_id bob_user) (pages alice_db ! 0) \<and>
   pages (fst (put_pages alice_db bob_user 1 \<lparr>title = Some ''Hack'', content = None\<rparr>)) ! 0
     = pages alice_db ! 0"
proof -
  let ?p = "\<lparr>p_id = 1, p_title = ''Hi'', p_content = Some ''<p>old</p>'', p_userId = 1\<rparr>"
  let ?q = "\<lparr>p_id = 1, p_title = ''New'', p_content = Some ''x'', p_userId = 1\<rparr>"
  let ?rs = "[(demo_env 10, PutPages (Some ''Bearer tokenA'') 1 \<lparr>title = Some ''New'', content = Some ''x''\<rparr>),
      (demo_env 20, PostPages (Some ''Bearer tokenA'') \<lparr>title = Some ''Two'', content = None\<rparr>)]"
  let ?hack = "\<lparr>title = Some ''Hack'', content = None\<rparr>"
  have w: "wf_db alice_db" by (simp add: wf_db_def alice_db_def)
  have m: "?p \<in> set (pages alice_db)" by (simp add: alice_db_def)
  have g10: "authenticateToken (verify_at demo_decode 10) (Some ''Bearer tokenA'') = Next alice_user"
    and g20: "authenticateToken (verify_at demo_decode 20) (Some ''Bearer tokenA'') = Next alice_user"
    by (simp_all add: authenticateToken_def bearer_token_def js_index_def Let_def
        verify_at_def demo_decode_def check_def issue_def alice_def alice_user_def)
  have put: "fst (put_pages alice_db alice_user 1 \<lparr>title = Some ''New'', content = Some ''x''\<rparr>)
      = alice_db\<lparr>pages := [?q]\<rparr>"
    by (simp add: put_pages_def truthy_def update_page_def matches_def alice_db_def alice_user_def)
  have post: "post_pages (alice_db\<lparr>pages := [?q]\<rparr>) alice_user \<lparr>title = Some ''Two'', content = None\<rparr>
      = (alice_db\<lparr>pages := [?q, \<lparr>p_id = 2, p_title = ''Two'', p_content = Some [], p_userId = 1\<rparr>],
           pages_seq := 2\<rparr>,
         json 201 (PageCreated 2 ''Two'' None 1))"
    by (simp add: post_pages_def truthy_def insert_page_def or_else_def next_rowid_def
        alice_db_def alice_user_def)
  have s: "pages (serve alice_db ?rs)
      = [?q, \<lparr>p_id = 2, p_title = ''Two'', p_content = Some [], p_userId = 1\<rparr>]"
    by (simp add: demo_env_def protected_def g10 g20 put post)
  have st: "status (snd (handle (demo_env 20) alice_db
     (PostPages (Some ''Bearer tokenA'') \<lparr>title = Some ''Two'', content = None\<rparr>))) = 201"
    by (simp add: demo_env_def protected_def g20 post_pages_def truthy_def insert_page_def
        json_def Let_def)
  have k: "(0::nat) < length (pages alice_db)" by (simp add: alice_db_def)
  have nm: "\<not> matches 1 (jwt_id bob_user) (pages alice_db ! 0)"
    by (simp add: matches_def alice_db_def bob_user_def)
  have qm: "?q \<in> set (pages (serve alice_db ?rs))" using s by simp
  have owner: "p_userId ?q = 1"
    using owner_never_changes [where d = alice_db and p = ?p and q = ?q and rs = ?rs] w m qm
    by simp
  have frame: "pages (fst (put_pages alice_db bob_user 1 ?hack)) ! 0 = pages alice_db ! 0"
    using owner_never_changes [where d = alice_db and user = bob_user and i = 1 and b = ?hack] k nm
    by simp
  show ?thesis using w m s owner st k nm frame by simp
qed

end
